theory Spec2Isabelle
  imports Main "HOL-Library.AList"
begin

section \<open>Values, promises and callbacks\<close>

text \<open>
  The router of veloserver (\<^verbatim>\<open>router.ts\<close>, \<^verbatim>\<open>context.ts\<close>) is embedded as HOL functions.
  A JavaScript call can return a plain value, return a promise, or throw. Promises are
  taken at their settled state (every promise a callback returns is assumed to settle):
  \<open>Inl e\<close> is a rejection with the error \<open>e\<close>, \<open>Inr v\<close> a fulfilment with \<open>v\<close>.
  The result of a call is \<open>Inl e\<close> when the call throws \<open>e\<close> synchronously and
  \<open>Inr v\<close> when it returns \<open>v\<close>, where \<open>v\<close> is a plain value or a promise.
\<close>

type_synonym fault = string

type_synonym 'a promise = "fault + 'a"

datatype 'a or_promise = Plain 'a | Promise "'a promise"

type_synonym 'a call = "fault + 'a or_promise"

text \<open>\<^verbatim>\<open>await v\<close>: a plain value is itself, a promise gives its settled state.\<close>

fun await :: "'a or_promise \<Rightarrow> 'a promise" where
  "await (Plain v) = Inr v"
| "await (Promise p) = p"

record request =
  "method" :: string
  pathname :: string

record response =
  status :: nat
  body :: string
  headers :: "(string \<times> string) list"

text \<open>The lines written by \<^verbatim>\<open>console.log\<close>, one constructor per call site.\<close>

datatype logmsg =
    ERROR_setHandler_called_twice
  | ERROR_wildcard_child_has_more_path_segments nat
  | ERROR_pathVariable_child_has_more_than_one_child nat string
  | ERROR_path_variable_global_consistency string string
  | WARN_unsupported_method string
  | ERROR_middleware_no_response string
  | ERROR_caught fault

section \<open>context.ts\<close>

text \<open>
  \<^verbatim>\<open>String.prototype.split("/")\<close>: the pieces between the separators, always at least one.
\<close>

fun split :: "char \<Rightarrow> string \<Rightarrow> string list" where
  "split sep [] = [[]]"
| "split sep (c # cs) =
     (if c = sep then [] # split sep cs
      else (case split sep cs of
              [] \<Rightarrow> [[c]]
            | w # ws \<Rightarrow> (c # w) # ws))"

text \<open>
  The class \<^verbatim>\<open>Context\<close>. The private array \<^verbatim>\<open>#pathParts\<close> is one object: the context holds
  the only location of it, and every reader (the router's local \<^verbatim>\<open>pathParts\<close>, a callback
  calling \<^verbatim>\<open>getPathParts()\<close>) reads that location. \<open>None\<close> is \<^verbatim>\<open>undefined\<close>.
  \<^verbatim>\<open>pathVariables\<close> is a \<^verbatim>\<open>Map\<close>, kept as an association list in insertion order.
\<close>

record 'm Context =
  url_pathname :: string
  pathVariables :: "(string \<times> string) list option"
  meta :: 'm
  pathParts :: "string list option"

definition new_Context :: "request \<Rightarrow> 'm \<Rightarrow> 'm Context" where
  "new_Context req m =
     \<lparr>url_pathname = pathname req, pathVariables = None, meta = m, pathParts = None\<rparr>"

definition getPathParts :: "'m Context \<Rightarrow> string list \<times> 'm Context" where
  "getPathParts c =
     (case pathParts c of
        None \<Rightarrow>
          (let parts = split CHR ''/'' (if url_pathname c = [] then ''/'' else url_pathname c)
           in (parts, c\<lparr>pathParts := Some parts\<rparr>))
      | Some parts \<Rightarrow> (parts, c))"

definition addPathVariable :: "string \<Rightarrow> string \<Rightarrow> 'm Context \<Rightarrow> 'm Context" where
  "addPathVariable pathVariableName pathVariableValue c =
     (let vars = (case pathVariables c of None \<Rightarrow> [] | Some m \<Rightarrow> m)
      in c\<lparr>pathVariables := Some (AList.update pathVariableName pathVariableValue vars)\<rparr>)"

text \<open>
  The router keeps the array returned by \<^verbatim>\<open>getPathParts()\<close> in a local variable and works
  on it: \<^verbatim>\<open>pathParts.length\<close>, \<^verbatim>\<open>pathParts[0]\<close>, \<^verbatim>\<open>pathParts.shift()\<close>. These read and write
  the context's array. (\<^verbatim>\<open>shift\<close> on an empty array does nothing.)
\<close>

definition pathParts_array :: "'m Context \<Rightarrow> string list" where
  "pathParts_array c = (case pathParts c of None \<Rightarrow> [] | Some parts \<Rightarrow> parts)"

definition pathParts_shift :: "'m Context \<Rightarrow> 'm Context" where
  "pathParts_shift c =
     (case pathParts c of None \<Rightarrow> c | Some parts \<Rightarrow> c\<lparr>pathParts := Some (tl parts)\<rparr>)"

section \<open>router.ts: inspectors and the route trie\<close>

text \<open>
  Callbacks receive the request and the context and may change the context (its metadata
  is the documented channel between inspectors and handlers); a response inspector may
  also change the response it is given. Each returns what the call did, and the context
  (and response) it left behind.
\<close>

record RequestInspectorResponse =
  response :: "response option"
  shouldContinue :: bool

type_synonym 'm Handler = "request \<Rightarrow> 'm Context \<Rightarrow> response call \<times> 'm Context"

type_synonym 'm RequestInspector =
  "request \<Rightarrow> 'm Context \<Rightarrow> RequestInspectorResponse call \<times> 'm Context"

type_synonym 'm ResponseInspector =
  "request \<Rightarrow> response \<Rightarrow> 'm Context \<Rightarrow> unit call \<times> response \<times> 'm Context"

record 'm Inspector =
  requestInspector :: "'m RequestInspector option"
  responseInspector :: "'m ResponseInspector option"
  observeChildPaths :: bool

definition new_Inspector ::
  "'m RequestInspector option \<Rightarrow> 'm ResponseInspector option \<Rightarrow> bool option \<Rightarrow> 'm Inspector"
where
  "new_Inspector ri rsi ocp =
     \<lparr>requestInspector = ri, responseInspector = rsi,
      observeChildPaths = (case ocp of Some b \<Rightarrow> b | None \<Rightarrow> True)\<rparr>"

datatype 'm RouteNode =
  RouteNode (pathSegment: string) (isWildcard: bool) (pathVariable: string)
    (inspectors: "'m Inspector list") (childNodes: "'m RouteNode list")
    (handler: "'m Handler option")

definition new_RouteNode :: "'m RouteNode" where
  "new_RouteNode = RouteNode [] False [] [] [] None"

fun setPathSegment :: "string \<Rightarrow> 'm RouteNode \<Rightarrow> 'm RouteNode" where
  "setPathSegment s (RouteNode seg w v ins cs h) = RouteNode s w v ins cs h"

fun setIsWildcard :: "bool \<Rightarrow> string option \<Rightarrow> 'm RouteNode \<Rightarrow> 'm RouteNode" where
  "setIsWildcard b pv (RouteNode seg w v ins cs h) =
     RouteNode seg b (case pv of Some x \<Rightarrow> (if x \<noteq> [] then x else v) | None \<Rightarrow> v) ins cs h"

fun addInspector :: "'m Inspector \<Rightarrow> 'm RouteNode \<Rightarrow> 'm RouteNode \<times> logmsg list" where
  "addInspector i (RouteNode seg w v ins cs h) = (RouteNode seg w v (ins @ [i]) cs h, [])"

fun setHandler :: "'m Handler \<Rightarrow> 'm RouteNode \<Rightarrow> 'm RouteNode \<times> logmsg list" where
  "setHandler f (RouteNode seg w v ins cs h) =
     (case h of
        Some old \<Rightarrow> (RouteNode seg w v ins cs h, [ERROR_setHandler_called_twice])
      | None \<Rightarrow> (RouteNode seg w v ins cs (Some f), []))"

fun addChildNode :: "'m RouteNode \<Rightarrow> 'm RouteNode \<Rightarrow> 'm RouteNode" where
  "addChildNode routeNode (RouteNode seg w v ins cs h) = RouteNode seg w v ins (cs @ [routeNode]) h"

text \<open>
  \<^verbatim>\<open>childNodes.find(p)\<close> returns the first child satisfying \<^verbatim>\<open>p\<close>, and the code then
  changes that child in place; \<open>replace_first\<close> puts the changed child back where the
  found one stood.
\<close>

fun replace_first :: "('a \<Rightarrow> bool) \<Rightarrow> 'a \<Rightarrow> 'a list \<Rightarrow> 'a list" where
  "replace_first p y [] = []"
| "replace_first p y (x # xs) = (if p x then y # xs else x # replace_first p y xs)"

fun setChildNodes :: "'m RouteNode list \<Rightarrow> 'm RouteNode \<Rightarrow> 'm RouteNode" where
  "setChildNodes cs' (RouteNode seg w v ins cs h) = RouteNode seg w v ins cs' h"

fun addPathPropertyHelper ::
  "string list \<Rightarrow> ('m RouteNode \<Rightarrow> 'm RouteNode \<times> logmsg list) \<Rightarrow> 'm RouteNode
     \<Rightarrow> 'm RouteNode \<times> logmsg list"
where
  "addPathPropertyHelper [] setClosure this = setClosure this"
| "addPathPropertyHelper (seg # pathSegments) setClosure this =
     (if seg = ''*'' then
        (if length pathSegments > 0 then
           (this, [ERROR_wildcard_child_has_more_path_segments (length pathSegments)])
         else
           (case setClosure (setIsWildcard True (Some ''*'') new_RouteNode) of
              (newChild, lg) \<Rightarrow> (addChildNode newChild this, lg)))
      else if length seg > 1 \<and> hd seg = CHR '':'' then
        (let pv = tl seg;
             lg0 = (if length (childNodes this) > 1
                    then [ERROR_pathVariable_child_has_more_than_one_child
                            (length (childNodes this)) (pathSegment this)]
                    else [])
         in case find isWildcard (childNodes this) of
              Some child \<Rightarrow>
                (let lg1 = (if pathVariable child \<noteq> pv
                            then [ERROR_path_variable_global_consistency (pathVariable child) pv]
                            else [])
                 in case (if length pathSegments = 0 then setClosure child
                          else addPathPropertyHelper pathSegments setClosure child) of
                      (child', lg) \<Rightarrow>
                        (setChildNodes (replace_first isWildcard child' (childNodes this)) this,
                         lg0 @ lg1 @ lg))
            | None \<Rightarrow>
                (case (if length pathSegments = 0
                       then setClosure (setIsWildcard True (Some pv) new_RouteNode)
                       else addPathPropertyHelper pathSegments setClosure
                              (setIsWildcard True (Some pv) new_RouteNode)) of
                   (newChild, lg) \<Rightarrow> (addChildNode newChild this, lg0 @ lg)))
      else
        (case find (\<lambda>node. pathSegment node = seg) (childNodes this) of
           Some child \<Rightarrow>
             (case (if length pathSegments = 0 then setClosure child
                    else addPathPropertyHelper pathSegments setClosure child) of
                (child', lg) \<Rightarrow>
                  (setChildNodes
                     (replace_first (\<lambda>node. pathSegment node = seg) child' (childNodes this)) this,
                   lg))
         | None \<Rightarrow>
             (case (if length pathSegments = 0
                    then setClosure (setPathSegment seg new_RouteNode)
                    else addPathPropertyHelper pathSegments setClosure
                           (setPathSegment seg new_RouteNode)) of
                (newChild, lg) \<Rightarrow> (addChildNode newChild this, lg))))"

definition addPathHandler ::
  "string list \<Rightarrow> 'm Handler \<Rightarrow> 'm RouteNode \<Rightarrow> 'm RouteNode \<times> logmsg list" where
  "addPathHandler pathSegments h this = addPathPropertyHelper pathSegments (setHandler h) this"

definition addPathInspector ::
  "string list \<Rightarrow> 'm Inspector \<Rightarrow> 'm RouteNode \<Rightarrow> 'm RouteNode \<times> logmsg list" where
  "addPathInspector pathSegments i this =
     addPathPropertyHelper pathSegments (addInspector i) this"

definition pathSegmentsFromPath :: "string \<Rightarrow> string list" where
  "pathSegmentsFromPath path = tl (split CHR ''/'' path)"

section \<open>router.ts: the Router and registration\<close>

text \<open>
  The two default handlers. \<^verbatim>\<open>new Response("Internal Server Error", {status: 500})\<close> is made
  from a string body, which the runtime labels with the content type of plain text; the
  not-found handler sets its content type itself.
\<close>

definition default_not_found_handler :: "'m Handler" where
  "default_not_found_handler req c =
     (Inr (Plain \<lparr>status = 404, body = ''<!DOCTYPE html><html><body>Not Found</body></html>'',
                   headers = [(''content-type'', ''text/html; charset=utf-8'')]\<rparr>), c)"

definition default_server_error_handler :: "'m Handler" where
  "default_server_error_handler req c =
     (Inr (Plain \<lparr>status = 500, body = ''Internal Server Error'',
                   headers = [(''content-type'', ''text/plain;charset=UTF-8'')]\<rparr>), c)"

text \<open>
  The class \<^verbatim>\<open>Router\<close>. \<open>context_metadata_constructor\<close> is the metadata factory of the
  revision of \<^verbatim>\<open>router.ts\<close> that has one (it returns the metadata or throws); the
  revision without it is the case of a constructor that returns \<^verbatim>\<open>undefined\<close>.
\<close>

record 'm Router =
  get_routes :: "'m RouteNode"
  head_routes :: "'m RouteNode"
  post_routes :: "'m RouteNode"
  context_metadata_constructor :: "request \<Rightarrow> fault + 'm"
  not_found_handler :: "'m Handler"
  server_error_handler :: "'m Handler"

definition new_Router ::
  "'m Handler option \<Rightarrow> 'm Handler option \<Rightarrow> (request \<Rightarrow> fault + 'm) \<Rightarrow> 'm Router" where
  "new_Router nf se mk =
     \<lparr>get_routes = new_RouteNode, head_routes = new_RouteNode, post_routes = new_RouteNode,
      context_metadata_constructor = mk,
      not_found_handler = (case nf of Some h \<Rightarrow> h | None \<Rightarrow> default_not_found_handler),
      server_error_handler = (case se of Some h \<Rightarrow> h | None \<Rightarrow> default_server_error_handler)\<rparr>"

text \<open>A registration takes one path or an array of paths (\<^verbatim>\<open>string | string[]\<close>).\<close>

datatype paths = Path string | Paths "string list"

fun forEach_path ::
  "(string list \<Rightarrow> 'm RouteNode \<Rightarrow> 'm RouteNode \<times> logmsg list) \<Rightarrow> string list
     \<Rightarrow> 'm RouteNode \<Rightarrow> 'm RouteNode \<times> logmsg list"
where
  "forEach_path reg [] routeNode = (routeNode, [])"
| "forEach_path reg (p # ps) routeNode =
     (case reg (pathSegmentsFromPath p) routeNode of
        (routeNode', lg) \<Rightarrow>
          (case forEach_path reg ps routeNode' of
             (routeNode'', lg') \<Rightarrow> (routeNode'', lg @ lg')))"

fun addPathHandlerToNode ::
  "'m RouteNode \<Rightarrow> paths \<Rightarrow> 'm Handler \<Rightarrow> 'm RouteNode \<times> logmsg list" where
  "addPathHandlerToNode routeNode (Paths ps) h =
     forEach_path (\<lambda>segs. addPathHandler segs h) ps routeNode"
| "addPathHandlerToNode routeNode (Path p) h = addPathHandler (pathSegmentsFromPath p) h routeNode"

fun addPathInspectorToNode ::
  "'m RouteNode \<Rightarrow> paths \<Rightarrow> 'm Inspector \<Rightarrow> 'm RouteNode \<times> logmsg list" where
  "addPathInspectorToNode routeNode (Paths ps) i =
     forEach_path (\<lambda>segs. addPathInspector segs i) ps routeNode"
| "addPathInspectorToNode routeNode (Path p) i =
     addPathInspector (pathSegmentsFromPath p) i routeNode"

definition get :: "paths \<Rightarrow> 'm Handler \<Rightarrow> 'm Router \<Rightarrow> 'm Router \<times> logmsg list" where
  "get ps h rt =
     (case addPathHandlerToNode (get_routes rt) ps h of
        (n, lg) \<Rightarrow> (rt\<lparr>get_routes := n\<rparr>, lg))"

definition head :: "paths \<Rightarrow> 'm Handler \<Rightarrow> 'm Router \<Rightarrow> 'm Router \<times> logmsg list" where
  "head ps h rt =
     (case addPathHandlerToNode (head_routes rt) ps h of
        (n, lg) \<Rightarrow> (rt\<lparr>head_routes := n\<rparr>, lg))"

definition post :: "paths \<Rightarrow> 'm Handler \<Rightarrow> 'm Router \<Rightarrow> 'm Router \<times> logmsg list" where
  "post ps h rt =
     (case addPathHandlerToNode (post_routes rt) ps h of
        (n, lg) \<Rightarrow> (rt\<lparr>post_routes := n\<rparr>, lg))"

definition addGetInspector ::
  "paths \<Rightarrow> 'm Inspector \<Rightarrow> 'm Router \<Rightarrow> 'm Router \<times> logmsg list" where
  "addGetInspector ps i rt =
     (case addPathInspectorToNode (get_routes rt) ps i of
        (n, lg) \<Rightarrow> (rt\<lparr>get_routes := n\<rparr>, lg))"

definition addHeadInspector ::
  "paths \<Rightarrow> 'm Inspector \<Rightarrow> 'm Router \<Rightarrow> 'm Router \<times> logmsg list" where
  "addHeadInspector ps i rt =
     (case addPathInspectorToNode (head_routes rt) ps i of
        (n, lg) \<Rightarrow> (rt\<lparr>head_routes := n\<rparr>, lg))"

definition addPostInspector ::
  "paths \<Rightarrow> 'm Inspector \<Rightarrow> 'm Router \<Rightarrow> 'm Router \<times> logmsg list" where
  "addPostInspector ps i rt =
     (case addPathInspectorToNode (post_routes rt) ps i of
        (n, lg) \<Rightarrow> (rt\<lparr>post_routes := n\<rparr>, lg))"

definition addAllInspector ::
  "paths \<Rightarrow> 'm Inspector \<Rightarrow> 'm Router \<Rightarrow> 'm Router \<times> logmsg list" where
  "addAllInspector ps i rt =
     (case addGetInspector ps i rt of
        (rt1, lg1) \<Rightarrow>
          (case addHeadInspector ps i rt1 of
             (rt2, lg2) \<Rightarrow>
               (case addPostInspector ps i rt2 of
                  (rt3, lg3) \<Rightarrow> (rt3, lg1 @ lg2 @ lg3))))"

section \<open>router.ts: dispatch\<close>

text \<open>
  \<^verbatim>\<open>processResponseInspectors\<close> is an async function: its result is a promise. It awaits
  the response it is given, calls the response inspectors in order, awaiting each, and
  returns the response. A rejection of the response, a throw of an inspector or a
  rejection of an inspector's promise rejects the result.
\<close>

fun forEach_responseInspector ::
  "'m ResponseInspector list \<Rightarrow> request \<Rightarrow> response \<Rightarrow> 'm Context
     \<Rightarrow> response promise \<times> 'm Context"
where
  "forEach_responseInspector [] req resp c = (Inr resp, c)"
| "forEach_responseInspector (ri # ris) req resp c =
     (case ri req resp c of
        (Inl e, resp', c') \<Rightarrow> (Inl e, c')
      | (Inr v, resp', c') \<Rightarrow>
          (case await v of
             Inl e \<Rightarrow> (Inl e, c')
           | Inr u \<Rightarrow> forEach_responseInspector ris req resp' c'))"

definition processResponseInspectors ::
  "'m ResponseInspector list \<Rightarrow> request \<Rightarrow> response or_promise \<Rightarrow> 'm Context
     \<Rightarrow> response promise \<times> 'm Context"
where
  "processResponseInspectors responseInspectors req resp c =
     (case await resp of
        Inl e \<Rightarrow> (Inl e, c)
      | Inr responseObj \<Rightarrow> forEach_responseInspector responseInspectors req responseObj c)"

text \<open>
  The body of \<^verbatim>\<open>requestHandler\<close> runs inside \<^verbatim>\<open>try\<close>. It leaves the \<^verbatim>\<open>try\<close> by throwing
  (into the \<^verbatim>\<open>catch\<close>) or by \<^verbatim>\<open>return p\<close> for a promise \<open>p\<close>: the async function's result
  then settles as \<open>p\<close> does, and a promise that is returned without \<^verbatim>\<open>await\<close> is no longer
  inside the \<^verbatim>\<open>try\<close> when it rejects. The inspector loop of a node either leaves in one of
  these ways or runs to its end. The state is the context and the console.
\<close>

record 'm world =
  ctx :: "'m Context"
  console :: "logmsg list"

datatype 'm exit =
    Throws fault "'m world"
  | Returns "response promise" "'m world"

datatype 'm inspected =
    Exit "'m exit"
  | Continues "'m ResponseInspector list" "'m world"

text \<open>
  \<^verbatim>\<open>return processResponseInspectors(responseInspectors, request, f(request,context), context)\<close>:
  the argument \<^verbatim>\<open>f(request,context)\<close> is evaluated first, inside the \<^verbatim>\<open>try\<close>.
\<close>

definition return_processed ::
  "'m ResponseInspector list \<Rightarrow> request \<Rightarrow> 'm Handler \<Rightarrow> 'm world \<Rightarrow> 'm exit" where
  "return_processed responseInspectors req f w =
     (case f req (ctx w) of
        (Inl e, c') \<Rightarrow> Throws e (w\<lparr>ctx := c'\<rparr>)
      | (Inr v, c') \<Rightarrow>
          (case processResponseInspectors responseInspectors req v c' of
             (p, c'') \<Rightarrow> Returns p (w\<lparr>ctx := c''\<rparr>)))"

definition in_scope :: "'m Inspector \<Rightarrow> 'm Context \<Rightarrow> bool" where
  "in_scope inspector c = (length (pathParts_array c) = 0 \<or> observeChildPaths inspector)"

text \<open>The second \<^verbatim>\<open>if\<close> of the inspector loop: queue the response inspector.\<close>

definition push_responseInspector ::
  "'m Inspector \<Rightarrow> 'm ResponseInspector list \<Rightarrow> 'm Context \<Rightarrow> 'm ResponseInspector list" where
  "push_responseInspector inspector responseInspectors c =
     (case responseInspector inspector of
        Some rsi \<Rightarrow> (if in_scope inspector c then responseInspectors @ [rsi] else responseInspectors)
      | None \<Rightarrow> responseInspectors)"

text \<open>\<^verbatim>\<open>for(const inspector of nextRouteNode.inspectors)\<close>\<close>

fun processInspectors ::
  "'m Router \<Rightarrow> request \<Rightarrow> 'm Inspector list \<Rightarrow> 'm ResponseInspector list \<Rightarrow> 'm world
     \<Rightarrow> 'm inspected"
where
  "processInspectors rt req [] responseInspectors w = Continues responseInspectors w"
| "processInspectors rt req (inspector # rest) responseInspectors w =
     (case (if in_scope inspector (ctx w) then requestInspector inspector else None) of
        Some ri \<Rightarrow>
          (case ri req (ctx w) of
             (Inl e, c') \<Rightarrow> Exit (Throws e (w\<lparr>ctx := c'\<rparr>))
           | (Inr v, c') \<Rightarrow>
               (case await v of
                  Inl e \<Rightarrow> Exit (Throws e (w\<lparr>ctx := c'\<rparr>))
                | Inr requestInspectorResponse \<Rightarrow>
                    (case response requestInspectorResponse of
                       Some resp \<Rightarrow>
                         (case processResponseInspectors responseInspectors req (Plain resp) c' of
                            (p, c'') \<Rightarrow> Exit (Returns p (w\<lparr>ctx := c''\<rparr>)))
                     | None \<Rightarrow>
                         (if \<not> shouldContinue requestInspectorResponse then
                            Exit (return_processed responseInspectors req (server_error_handler rt)
                                    (w\<lparr>ctx := c',
                                       console := console w @
                                         [ERROR_middleware_no_response (url_pathname c')]\<rparr>))
                          else
                            processInspectors rt req rest
                              (push_responseInspector inspector responseInspectors c')
                              (w\<lparr>ctx := c'\<rparr>)))))
      | None \<Rightarrow>
          processInspectors rt req rest
            (push_responseInspector inspector responseInspectors (ctx w)) w)"

text \<open>The code after the \<^verbatim>\<open>while\<close> loop: the closest splat with a handler, else not found.\<close>

definition after_loop ::
  "'m Router \<Rightarrow> request \<Rightarrow> 'm ResponseInspector list \<Rightarrow> 'm RouteNode option \<Rightarrow> 'm world
     \<Rightarrow> 'm exit"
where
  "after_loop rt req responseInspectors closestWildcard w =
     (case (case closestWildcard of Some n \<Rightarrow> handler n | None \<Rightarrow> None) of
        Some h \<Rightarrow> return_processed responseInspectors req h w
      | None \<Rightarrow> return_processed responseInspectors req (not_found_handler rt) w)"

text \<open>The two \<^verbatim>\<open>find\<close> calls of the loop body.\<close>

definition wildcardSplitChild :: "'m RouteNode \<Rightarrow> 'm RouteNode option" where
  "wildcardSplitChild node =
     find (\<lambda>routeNode. isWildcard routeNode \<and> pathVariable routeNode = ''*'') (childNodes node)"

definition nextChild :: "'m RouteNode \<Rightarrow> string \<Rightarrow> 'm RouteNode option" where
  "nextChild node seg =
     find (\<lambda>routeNode. isWildcard routeNode \<or> pathSegment routeNode = seg) (childNodes node)"

definition update_closestWildcard :: "'m RouteNode \<Rightarrow> 'm RouteNode option \<Rightarrow> 'm RouteNode option"
where
  "update_closestWildcard node closestWildcard =
     (case wildcardSplitChild node of
        Some s \<Rightarrow> (case handler s of Some h \<Rightarrow> Some s | None \<Rightarrow> closestWildcard)
      | None \<Rightarrow> closestWildcard)"

definition capture_pathVariable :: "'m RouteNode \<Rightarrow> string \<Rightarrow> 'm Context \<Rightarrow> 'm Context" where
  "capture_pathVariable nextRouteNode seg c =
     (if isWildcard nextRouteNode \<and> pathVariable nextRouteNode \<noteq> ''*''
      then addPathVariable (pathVariable nextRouteNode) seg c else c)"

text \<open>\<^verbatim>\<open>while(nextRouteNode)\<close>: one call of \<open>walk\<close> is one iteration, at the node given.\<close>

function walk ::
  "'m Router \<Rightarrow> request \<Rightarrow> 'm RouteNode \<Rightarrow> 'm ResponseInspector list \<Rightarrow> 'm RouteNode option
     \<Rightarrow> 'm world \<Rightarrow> 'm exit"
where
  "walk rt req nextRouteNode responseInspectors closestWildcard w =
     (case processInspectors rt req (inspectors nextRouteNode) responseInspectors w of
        Exit x \<Rightarrow> x
      | Continues responseInspectors' w' \<Rightarrow>
          (if length (pathParts_array (ctx w')) = 0 then
             (case handler nextRouteNode of
                Some h \<Rightarrow> return_processed responseInspectors' req h w'
              | None \<Rightarrow> return_processed responseInspectors' req (not_found_handler rt) w')
           else
             (let seg = hd (pathParts_array (ctx w'));
                  c' = pathParts_shift (ctx w');
                  closestWildcard' = update_closestWildcard nextRouteNode closestWildcard
              in case nextChild nextRouteNode seg of
                   Some n \<Rightarrow>
                     walk rt req n responseInspectors' closestWildcard'
                       (w'\<lparr>ctx := capture_pathVariable n seg c'\<rparr>)
                 | None \<Rightarrow>
                     after_loop rt req responseInspectors' closestWildcard' (w'\<lparr>ctx := c'\<rparr>))))"
  by pat_completeness auto
termination
proof -
  have smaller: "size n < size node"
    if "find p (childNodes node) = Some n" for p and n node :: "'m RouteNode"
  proof -
    from that have "n \<in> set (childNodes node)"
      by (auto simp: find_Some_iff)
    then have "size n < Suc (size_list size (childNodes node))"
      by (simp add: less_Suc_eq_le size_list_estimation')
    then show ?thesis
      by (cases node) simp
  qed
  show ?thesis
    by (relation "measure (\<lambda>(rt, req, n, q, cl, w). size n)")
       (auto simp: nextChild_def dest: smaller)
qed

declare walk.simps [simp del]

text \<open>
  \<^verbatim>\<open>requestHandler\<close>, an async function: its result is a promise, given here settled,
  with the console lines it wrote and the context it leaves (none when the metadata
  constructor threw before a context existed).
\<close>

definition try_body :: "'m Router \<Rightarrow> request \<Rightarrow> 'm world \<Rightarrow> 'm exit" where
  "try_body rt req w =
     (case (if method req = ''GET'' then Some (get_routes rt)
            else if method req = ''HEAD'' then Some (head_routes rt)
            else if method req = ''POST'' then Some (post_routes rt)
            else None) of
        None \<Rightarrow>
          (case not_found_handler rt req (ctx w) of
             (Inl e, c') \<Rightarrow>
               Throws e (w\<lparr>ctx := c', console := console w @ [WARN_unsupported_method (method req)]\<rparr>)
           | (Inr v, c') \<Rightarrow>
               Returns (await v)
                 (w\<lparr>ctx := c', console := console w @ [WARN_unsupported_method (method req)]\<rparr>))
      | Some nextRouteNode \<Rightarrow>
          walk rt req nextRouteNode [] None
            (w\<lparr>ctx := pathParts_shift (snd (getPathParts (ctx w)))\<rparr>))"

definition catch_block ::
  "'m Router \<Rightarrow> request \<Rightarrow> fault \<Rightarrow> 'm world
     \<Rightarrow> response promise \<times> logmsg list \<times> 'm Context option"
where
  "catch_block rt req e w =
     (case server_error_handler rt req (ctx w) of
        (Inl e', c') \<Rightarrow> (Inl e', console w @ [ERROR_caught e], Some c')
      | (Inr v, c') \<Rightarrow> (await v, console w @ [ERROR_caught e], Some c'))"

definition try_catch ::
  "'m Router \<Rightarrow> request \<Rightarrow> 'm exit \<Rightarrow> response promise \<times> logmsg list \<times> 'm Context option"
where
  "try_catch rt req x =
     (case x of
        Returns p w \<Rightarrow> (p, console w, Some (ctx w))
      | Throws e w \<Rightarrow> catch_block rt req e w)"

definition requestHandler ::
  "'m Router \<Rightarrow> request \<Rightarrow> response promise \<times> logmsg list \<times> 'm Context option" where
  "requestHandler rt req =
     (case context_metadata_constructor rt req of
        Inl e \<Rightarrow> (Inl e, [], None)
      | Inr m \<Rightarrow> try_catch rt req (try_body rt req \<lparr>ctx = new_Context req m, console = []\<rparr>))"

section \<open>Notions used in the statements\<close>

text \<open>
  A literal segment is one that registration treats neither as the splat \<^verbatim>\<open>*\<close> nor as a
  path variable (\<^verbatim>\<open>:\<close> followed by at least one character).
\<close>

definition is_literal :: "string \<Rightarrow> bool" where
  "is_literal s = (s \<noteq> ''*'' \<and> \<not> (length s > 1 \<and> hd s = CHR '':''))"

text \<open>The invariant of the specification: no node of the trie has two wildcard children.\<close>

fun one_wildcard_child :: "'m RouteNode \<Rightarrow> bool" where
  "one_wildcard_child (RouteNode seg w v ins cs h) =
     (length (filter isWildcard cs) \<le> 1 \<and> list_all one_wildcard_child cs)"

text \<open>
  A registration action that leaves the node's label and children alone, as
  \<open>setHandler\<close> and \<open>addInspector\<close> do.
\<close>

definition keeps_node :: "('m RouteNode \<Rightarrow> 'm RouteNode \<times> logmsg list) \<Rightarrow> bool" where
  "keeps_node f =
     (\<forall>n. childNodes (fst (f n)) = childNodes n \<and> isWildcard (fst (f n)) = isWildcard n
          \<and> pathVariable (fst (f n)) = pathVariable n \<and> pathSegment (fst (f n)) = pathSegment n)"

text \<open>
  The child a registration creates for a segment, before the rest of the path or the
  action is applied to it.
\<close>

definition fresh_child :: "string \<Rightarrow> 'm RouteNode" where
  "fresh_child seg =
     (if seg = ''*'' then RouteNode [] True ''*'' [] [] None
      else if length seg > 1 \<and> hd seg = CHR '':'' then RouteNode [] True (tl seg) [] [] None
      else RouteNode seg False [] [] [] None)"

text \<open>
  A named variable segment is \<^verbatim>\<open>:name\<close> with a name other than \<^verbatim>\<open>*\<close> (the variable name
  \<^verbatim>\<open>*\<close> is the mark of a splat node). A request path matches a route when it has the
  route's literal segments in the route's places and any segment in the place of a
  variable, and, when the route ends in \<^verbatim>\<open>*\<close>, at least one segment from there on.
  \<open>capture_all\<close> is the context after the captures of such a request, in path order.
\<close>

definition is_named_variable :: "string \<Rightarrow> bool" where
  "is_named_variable seg = (length seg > 1 \<and> hd seg = CHR '':'' \<and> tl seg \<noteq> ''*'')"

fun matches :: "string list \<Rightarrow> string list \<Rightarrow> bool" where
  "matches [] [] = True"
| "matches [] (x # xs) = False"
| "matches (seg # segs) [] = False"
| "matches (seg # segs) (x # xs) =
     (if seg = ''*'' \<and> segs = [] then True
      else (if is_literal seg then seg = x else True) \<and> matches segs xs)"

fun capture_all :: "string list \<Rightarrow> string list \<Rightarrow> 'm Context \<Rightarrow> 'm Context" where
  "capture_all (seg # segs) (x # xs) c =
     capture_all segs xs (if is_named_variable seg then addPathVariable (tl seg) x c else c)"
| "capture_all segs xs c = c"

section \<open>Example callbacks, requests and routers\<close>

text \<open>
  The responses of the example callbacks are told apart by status and body; their header
  list is left empty.
\<close>

definition respond :: "nat \<Rightarrow> string \<Rightarrow> 'm Handler" where
  "respond st b req c = (Inr (Plain \<lparr>status = st, body = b, headers = []\<rparr>), c)"

text \<open>An \<^verbatim>\<open>async\<close> handler that throws: the call returns a promise, and the promise rejects.\<close>

definition async_failing :: "fault \<Rightarrow> 'm Handler" where
  "async_failing e req c = (Inr (Promise (Inl e)), c)"

text \<open>A handler that throws, and a response inspector that throws.\<close>

definition sync_failing :: "fault \<Rightarrow> 'm Handler" where
  "sync_failing e req c = (Inl e, c)"

definition failing_observer :: "fault \<Rightarrow> 'm ResponseInspector" where
  "failing_observer e req resp c = (Inl e, resp, c)"

definition GET :: "string \<Rightarrow> request" where
  "GET p = \<lparr>method = ''GET'', pathname = p\<rparr>"

text \<open>A router with the default fallback handlers and no metadata (\<^verbatim>\<open>undefined\<close>).\<close>

definition plain_Router :: "unit Router" where
  "plain_Router = new_Router None None (\<lambda>req. Inr ())"

text \<open>
  Callbacks that leave their name in the metadata of the context (a list of names), so
  that the metadata tells which callbacks ran, in which order.
\<close>

definition called :: "string \<Rightarrow> string list Context \<Rightarrow> string list Context" where
  "called name c = c\<lparr>meta := meta c @ [name]\<rparr>"

definition named_handler :: "string \<Rightarrow> string list Handler" where
  "named_handler name req c =
     (Inr (Plain \<lparr>status = 200, body = name, headers = []\<rparr>), called name c)"

definition continuing :: "string \<Rightarrow> string list RequestInspector" where
  "continuing name req c =
     (Inr (Plain \<lparr>response = None, shouldContinue = True\<rparr>), called name c)"

definition halting :: "string \<Rightarrow> bool \<Rightarrow> string list RequestInspector" where
  "halting name cont req c =
     (Inr (Plain \<lparr>response = Some \<lparr>status = 403, body = name, headers = []\<rparr>,
                   shouldContinue = cont\<rparr>), called name c)"

definition observing :: "string \<Rightarrow> string list ResponseInspector" where
  "observing name req resp c = (Inr (Plain ()), resp, called name c)"

definition logging_Router :: "string list Router" where
  "logging_Router = new_Router None None (\<lambda>req. Inr [])"

text \<open>\<^verbatim>\<open>router.get("/:id", variable); router.get("/users", literal)\<close>\<close>

definition variable_then_literal :: "unit Router" where
  "variable_then_literal =
     fst (get (Path ''/users'') (respond 200 ''literal'')
       (fst (get (Path ''/:id'') (respond 200 ''variable'') plain_Router)))"

text \<open>\<^verbatim>\<open>router.get("/files/*", first); router.get("/files/*", second)\<close>\<close>

definition splat_twice :: "unit Router" where
  "splat_twice =
     fst (get (Path ''/files/*'') (respond 200 ''second'')
       (fst (get (Path ''/files/*'') (respond 200 ''first'') plain_Router)))"

text \<open>\<^verbatim>\<open>router.get("/:a", first); router.get("/:b/x", second)\<close>\<close>

definition renamed_variable :: "unit Router \<times> logmsg list" where
  "renamed_variable =
     get (Path ''/:b/x'') (respond 200 ''second'')
       (fst (get (Path ''/:a'') (respond 200 ''first'') plain_Router))"




text \<open>\<^verbatim>\<open>router.get("/users/:id", user)\<close>\<close>

definition users_id :: "unit Router" where
  "users_id = fst (get (Path ''/users/:id'') (respond 200 ''user'') plain_Router)"

text \<open>
  Two inspectors and a handler on \<^verbatim>\<open>/\<close>: the first continues, the second halts with a
  403 response (and sets \<^verbatim>\<open>shouldContinue\<close> to \<open>cont\<close>); each has a response inspector.
\<close>

definition halting_Router :: "bool \<Rightarrow> string list Router" where
  "halting_Router cont =
     fst (get (Path ''/'') (named_handler ''handler'')
       (fst (addGetInspector (Path ''/'')
               (new_Inspector (Some (halting ''B'' cont)) (Some (observing ''b'')) None)
          (fst (addGetInspector (Path ''/'')
                  (new_Inspector (Some (continuing ''A'')) (Some (observing ''a'')) None)
             logging_Router)))))"



text \<open>
  Four inspectors and a handler on \<^verbatim>\<open>/\<close>: \<^verbatim>\<open>A1\<close> and \<^verbatim>\<open>A2\<close> continue, \<^verbatim>\<open>B\<close> halts with a 403
  response, \<^verbatim>\<open>C\<close> would continue; each has a response inspector, named in lower case.
\<close>

definition halting_after_two :: "string list Router" where
  "halting_after_two =
     fst (get (Path ''/'') (named_handler ''handler'')
       (fst (addGetInspector (Path ''/'')
               (new_Inspector (Some (continuing ''C'')) (Some (observing ''c'')) None)
          (fst (addGetInspector (Path ''/'')
                  (new_Inspector (Some (halting ''B'' False)) (Some (observing ''b'')) None)
             (fst (addGetInspector (Path ''/'')
                     (new_Inspector (Some (continuing ''A2'')) (Some (observing ''a2'')) None)
                (fst (addGetInspector (Path ''/'')
                        (new_Inspector (Some (continuing ''A1'')) (Some (observing ''a1'')) None)
                   logging_Router)))))))))"


text \<open>\<^verbatim>\<open>router.get("/*", shallow); router.get("/users/:id", user)\<close>\<close>

definition splat_then_users_id :: "unit Router" where
  "splat_then_users_id =
     fst (get (Path ''/users/:id'') (respond 200 ''user'')
       (fst (get (Path ''/*'') (respond 200 ''shallow'') plain_Router)))"

text \<open>\<^verbatim>\<open>router.get("/users/:name", first); router.get("/users/:id", second)\<close>\<close>

definition users_name_then_id :: "unit Router \<times> logmsg list" where
  "users_name_then_id =
     get (Path ''/users/:id'') (respond 200 ''second'')
       (fst (get (Path ''/users/:name'') (respond 200 ''first'') plain_Router))"

text \<open>
  Callbacks that call \<^verbatim>\<open>context.getPathParts()\<close> and add what they saw to the metadata (a
  list of arrays): a request inspector, a handler and a response inspector, all on the
  route \<^verbatim>\<open>/sub/path\<close> of a router whose metadata starts empty.
\<close>

definition saw_pathParts :: "string list list Context \<Rightarrow> string list list Context" where
  "saw_pathParts c = (case getPathParts c of (parts, c') \<Rightarrow> c'\<lparr>meta := meta c' @ [parts]\<rparr>)"

definition reporting_inspector :: "string list list RequestInspector" where
  "reporting_inspector req c =
     (Inr (Plain \<lparr>response = None, shouldContinue = True\<rparr>), saw_pathParts c)"

definition reporting_handler :: "string list list Handler" where
  "reporting_handler req c =
     (Inr (Plain \<lparr>status = 200, body = [], headers = []\<rparr>), saw_pathParts c)"

definition reporting_observer :: "string list list ResponseInspector" where
  "reporting_observer req resp c = (Inr (Plain ()), resp, saw_pathParts c)"

definition reporting_Router :: "string list list Router" where
  "reporting_Router =
     fst (addGetInspector (Path ''/sub/path'')
            (new_Inspector (Some reporting_inspector) (Some reporting_observer) None)
       (fst (get (Path ''/sub/path'') reporting_handler
               (new_Router None None (\<lambda>req. Inr [])))))"

section \<open>Lemmas on the inspector loop and the walk\<close>

lemma processInspectors_append:
  "processInspectors rt req (pre @ rest) q w =
     (case processInspectors rt req pre q w of
        Exit x \<Rightarrow> Exit x
      | Continues q1 w1 \<Rightarrow> processInspectors rt req rest q1 w1)"
  by (induction pre arbitrary: q w)
     (auto split: option.splits prod.splits sum.splits)

lemma find_first_match:
  "\<forall>x\<in>set pre. \<not> p x \<Longrightarrow> p c \<Longrightarrow> find p (pre @ c # later) = Some c"
  by (induction pre) auto

text \<open>One iteration of the loop, in its three outcomes once the inspectors have run.\<close>

lemma walk_descend:
  assumes "processInspectors rt req (inspectors node) q w = Continues q' w'"
    and "pathParts_array (ctx w') = seg # rest"
    and "nextChild node seg = Some c"
  shows "walk rt req node q cl w =
           walk rt req c q' (update_closestWildcard node cl)
             (w'\<lparr>ctx := capture_pathVariable c seg (pathParts_shift (ctx w'))\<rparr>)"
  using assms by (subst walk.simps) simp


lemma walk_exact:
  assumes "processInspectors rt req (inspectors node) q w = Continues q' w'"
    and "pathParts_array (ctx w') = []"
  shows "walk rt req node q cl w =
           return_processed q' req
             (case handler node of Some h \<Rightarrow> h | None \<Rightarrow> not_found_handler rt) w'"
  using assms by (subst walk.simps) (simp split: option.splits)

lemma walk_halted:
  assumes "processInspectors rt req (inspectors node) q w = Exit x"
  shows "walk rt req node q cl w = x"
  using assms by (subst walk.simps) simp


lemma forEach_responseInspector_keeps:
  assumes "\<forall>rsi\<in>set qs. \<forall>r c. \<exists>u c2. rsi req r c = (Inr u, r, c2) \<and> await u = Inr ()"
  shows "fst (forEach_responseInspector qs req resp c) = Inr resp"
  using assms
proof (induction qs arbitrary: c)
  case Nil
  then show ?case by simp
next
  case (Cons rsi qs)
  from Cons.prems obtain u c2 where "rsi req resp c = (Inr u, resp, c2)" "await u = Inr ()"
    by (meson list.set_intros(1))
  moreover have "fst (forEach_responseInspector qs req resp c2) = Inr resp"
    using Cons.IH Cons.prems by simp
  ultimately show ?case by simp
qed



lemma split_not_Nil: "split sep s \<noteq> []"
  by (induction s) (auto split: list.splits)

lemma addPathVariable_binds:
  "map_of (case pathVariables (addPathVariable name val c) of None \<Rightarrow> [] | Some m \<Rightarrow> m) name
     = Some val"
  by (simp add: addPathVariable_def update_conv')

section \<open>Lemmas on registration\<close>

lemma setChildNodes_sel [simp]:
  "childNodes (setChildNodes cs n) = cs"
  "isWildcard (setChildNodes cs n) = isWildcard n"
  "pathVariable (setChildNodes cs n) = pathVariable n"
  "pathSegment (setChildNodes cs n) = pathSegment n"
  by (cases n; simp)+

lemma addChildNode_sel [simp]:
  "childNodes (addChildNode c n) = childNodes n @ [c]"
  "isWildcard (addChildNode c n) = isWildcard n"
  "pathVariable (addChildNode c n) = pathVariable n"
  "pathSegment (addChildNode c n) = pathSegment n"
  by (cases n; simp)+

lemma keeps_node_setHandler: "keeps_node (setHandler h)"
  unfolding keeps_node_def
proof
  fix n :: "'a RouteNode"
  show "childNodes (fst (setHandler h n)) = childNodes n \<and>
        isWildcard (fst (setHandler h n)) = isWildcard n \<and>
        pathVariable (fst (setHandler h n)) = pathVariable n \<and>
        pathSegment (fst (setHandler h n)) = pathSegment n"
    by (cases n) (simp split: option.splits)
qed

lemma keeps_node_addInspector: "keeps_node (addInspector i)"
  unfolding keeps_node_def
proof
  fix n :: "'a RouteNode"
  show "childNodes (fst (addInspector i n)) = childNodes n \<and>
        isWildcard (fst (addInspector i n)) = isWildcard n \<and>
        pathVariable (fst (addInspector i n)) = pathVariable n \<and>
        pathSegment (fst (addInspector i n)) = pathSegment n"
    by (cases n) simp
qed

lemma addPathPropertyHelper_keeps_label:
  assumes "keeps_node f"
  shows "isWildcard (fst (addPathPropertyHelper segs f n)) = isWildcard n
       \<and> pathVariable (fst (addPathPropertyHelper segs f n)) = pathVariable n
       \<and> pathSegment (fst (addPathPropertyHelper segs f n)) = pathSegment n"
proof (cases segs)
  case Nil
  then show ?thesis using assms by (simp add: keeps_node_def)
next
  case (Cons seg rest)
  then show ?thesis
    by (simp add: Let_def split: option.splits prod.splits)
qed

lemma one_wildcard_child_iff:
  "one_wildcard_child n =
     (length (filter isWildcard (childNodes n)) \<le> 1 \<and> list_all one_wildcard_child (childNodes n))"
  by (cases n) simp

lemma one_wildcard_child_addChildNode:
  "one_wildcard_child (addChildNode c n) =
     (length (filter isWildcard (childNodes n @ [c])) \<le> 1 \<and>
      list_all one_wildcard_child (childNodes n) \<and> one_wildcard_child c)"
  by (cases n) auto

lemma one_wildcard_child_setChildNodes:
  "one_wildcard_child (setChildNodes cs n) =
     (length (filter isWildcard cs) \<le> 1 \<and> list_all one_wildcard_child cs)"
  by (cases n) simp

lemma replace_first_filter:
  "find p cs = Some c \<Longrightarrow> q c' = q c \<Longrightarrow>
   length (filter q (replace_first p c' cs)) = length (filter q cs)"
  by (induction cs) (auto split: if_splits)

lemma replace_first_map:
  "find p cs = Some c \<Longrightarrow> g c' = g c \<Longrightarrow> map g (replace_first p c' cs) = map g cs"
  by (induction cs) (auto split: if_splits)

lemma replace_first_list_all:
  "list_all Q cs \<Longrightarrow> Q c' \<Longrightarrow> list_all Q (replace_first p c' cs)"
  by (induction cs) auto

lemma find_None_filter: "find p cs = None \<Longrightarrow> filter p cs = []"
  by (induction cs) (auto split: if_splits)

lemma find_Some_list_all: "find p cs = Some c \<Longrightarrow> list_all Q cs \<Longrightarrow> Q c"
  by (induction cs) (auto split: if_splits)

lemma keeps_node_one_wildcard_child:
  "keeps_node f \<Longrightarrow> one_wildcard_child (fst (f n)) = one_wildcard_child n"
  by (simp add: one_wildcard_child_iff keeps_node_def)

text \<open>
  A registration whose path has no \<^verbatim>\<open>*\<close> keeps the invariant: the variable branch looks for
  a wildcard child before it creates one, and the literal branch creates literal nodes.
\<close>

lemma addPathPropertyHelper_one_wildcard_child:
  assumes "keeps_node f" and "''*'' \<notin> set segs" and "one_wildcard_child n"
  shows "one_wildcard_child (fst (addPathPropertyHelper segs f n))"
  using assms(2,3)
proof (induction segs arbitrary: n)
  case Nil
  then show ?case using assms(1) by (simp add: keeps_node_one_wildcard_child)
next
  case (Cons seg rest)
  have star: "seg \<noteq> ''*''" and rest: "''*'' \<notin> set rest"
    using Cons.prems(1) by auto
  have IH: "\<And>m. one_wildcard_child m \<Longrightarrow>
              one_wildcard_child (fst (addPathPropertyHelper rest f m))"
    using Cons.IH rest by simp
  have cl: "\<And>m. one_wildcard_child m \<Longrightarrow>
              one_wildcard_child (fst (if length rest = 0 then f m else addPathPropertyHelper rest f m))"
    using IH assms(1) by (simp add: keeps_node_one_wildcard_child)
  have lab: "\<And>m. isWildcard (fst (if length rest = 0 then f m else addPathPropertyHelper rest f m))
               = isWildcard m"
    using addPathPropertyHelper_keeps_label [OF assms(1)] assms(1) by (simp add: keeps_node_def)
  from Cons.prems(2) have n1: "length (filter isWildcard (childNodes n)) \<le> 1"
    and n2: "list_all one_wildcard_child (childNodes n)"
    by (simp_all add: one_wildcard_child_iff)
  have fresh: "one_wildcard_child (setIsWildcard True (Some x) new_RouteNode)"
       "one_wildcard_child (setPathSegment seg new_RouteNode)"
       "isWildcard (setIsWildcard True (Some x) new_RouteNode)"
       "\<not> isWildcard (setPathSegment seg new_RouteNode)" for x
    by (simp_all add: new_RouteNode_def)
  show ?case
  proof (cases "length seg > 1 \<and> hd seg = CHR '':''")
    case True
    show ?thesis
    proof (cases "find isWildcard (childNodes n)")
      case None
      let ?new = "fst (if length rest = 0 then f (setIsWildcard True (Some (tl seg)) new_RouteNode)
                       else addPathPropertyHelper rest f (setIsWildcard True (Some (tl seg)) new_RouteNode))"
      have "one_wildcard_child ?new" by (rule cl) (rule fresh)
      moreover have "filter isWildcard (childNodes n) = []"
        using None by (rule find_None_filter)
      ultimately show ?thesis
        using True star None n2
        by (simp add: one_wildcard_child_addChildNode Let_def split_beta)
    next
      case (Some child)
      let ?c' = "fst (if length rest = 0 then f child else addPathPropertyHelper rest f child)"
      have "one_wildcard_child child"
        using Some n2 by (rule find_Some_list_all)
      then have "one_wildcard_child ?c'" by (rule cl)
      moreover have "isWildcard ?c' = isWildcard child" by (rule lab)
      ultimately show ?thesis
        using True star Some n1 n2
        by (simp add: one_wildcard_child_setChildNodes Let_def replace_first_filter
              replace_first_list_all split_beta)
    qed
  next
    case False
    show ?thesis
    proof (cases "find (\<lambda>node. pathSegment node = seg) (childNodes n)")
      case None
      let ?new = "fst (if length rest = 0 then f (setPathSegment seg new_RouteNode)
                       else addPathPropertyHelper rest f (setPathSegment seg new_RouteNode))"
      have "one_wildcard_child ?new" by (rule cl) (rule fresh)
      moreover have "\<not> isWildcard ?new" using lab fresh(4) by simp
      ultimately show ?thesis
        using False star None n1 n2
        by (auto simp: one_wildcard_child_addChildNode split_beta)
    next
      case (Some child)
      let ?c' = "fst (if length rest = 0 then f child else addPathPropertyHelper rest f child)"
      have "one_wildcard_child child"
        using Some n2 by (rule find_Some_list_all)
      then have "one_wildcard_child ?c'" by (rule cl)
      moreover have "isWildcard ?c' = isWildcard child" by (rule lab)
      ultimately show ?thesis
        using False star Some n1 n2
        by (auto simp: one_wildcard_child_setChildNodes replace_first_filter
              replace_first_list_all split_beta)
    qed
  qed
qed

text \<open>
  A variable segment met at a node that has a wildcard child works on that child: the
  children keep their places and labels, and a different name is logged.
\<close>

lemma variable_segment_reuses_wildcard_child:
  assumes "keeps_node f" and "find isWildcard (childNodes n) = Some child" and "b \<noteq> []"
  shows "map (\<lambda>c. (isWildcard c, pathVariable c, pathSegment c))
           (childNodes (fst (addPathPropertyHelper ((CHR '':'' # b) # rest) f n)))
         = map (\<lambda>c. (isWildcard c, pathVariable c, pathSegment c)) (childNodes n)"
    and "pathVariable child \<noteq> b \<Longrightarrow>
         ERROR_path_variable_global_consistency (pathVariable child) b
           \<in> set (snd (addPathPropertyHelper ((CHR '':'' # b) # rest) f n))"
proof -
  let ?c' = "fst (if length rest = 0 then f child else addPathPropertyHelper rest f child)"
  have "isWildcard ?c' = isWildcard child \<and> pathVariable ?c' = pathVariable child
        \<and> pathSegment ?c' = pathSegment child"
    using addPathPropertyHelper_keeps_label [OF assms(1)] assms(1) by (simp add: keeps_node_def)
  then have same: "(\<lambda>c. (isWildcard c, pathVariable c, pathSegment c)) ?c'
                 = (\<lambda>c. (isWildcard c, pathVariable c, pathSegment c)) child"
    by simp
  show "map (\<lambda>c. (isWildcard c, pathVariable c, pathSegment c))
           (childNodes (fst (addPathPropertyHelper ((CHR '':'' # b) # rest) f n)))
         = map (\<lambda>c. (isWildcard c, pathVariable c, pathSegment c)) (childNodes n)"
    using assms(2,3) replace_first_map [OF assms(2) same]
    by (simp add: Let_def split_beta)
  show "ERROR_path_variable_global_consistency (pathVariable child) b
           \<in> set (snd (addPathPropertyHelper ((CHR '':'' # b) # rest) f n))"
    if "pathVariable child \<noteq> b"
    using assms(2,3) that by (simp add: Let_def split_beta)
qed

text \<open>Registering on a node without children appends the child for the first segment.\<close>

lemma register_on_childless:
  assumes "childNodes n = []" and "seg = ''*'' \<longrightarrow> rest = []"
  shows "addPathPropertyHelper (seg # rest) f n =
           (case addPathPropertyHelper rest f (fresh_child seg) of
              (c, lg) \<Rightarrow> (addChildNode c n, lg))"
proof -
  have same: "\<And>pv::string. (if pv \<noteq> [] then pv else []) = pv" by simp
  show ?thesis
    using assms
    by (cases rest)
       (auto simp: fresh_child_def new_RouteNode_def Let_def same split: prod.splits)
qed

lemma fresh_child_sel [simp]:
  "childNodes (fresh_child seg) = []" "inspectors (fresh_child seg) = []"
  "handler (fresh_child seg) = None"
  by (simp_all add: fresh_child_def)

lemma addChildNode_more_sel [simp]:
  "inspectors (addChildNode c n) = inspectors n"
  "handler (addChildNode c n) = handler n"
  by (cases n; simp)+

lemma pathParts_addPathVariable [simp]:
  "pathParts (addPathVariable name val c) = pathParts c"
  "addPathVariable name val (c\<lparr>pathParts := p\<rparr>) = (addPathVariable name val c)\<lparr>pathParts := p\<rparr>"
  by (simp_all add: addPathVariable_def)

lemma capture_all_pathParts [simp]:
  "capture_all segs xs (c\<lparr>pathParts := p\<rparr>) = (capture_all segs xs c)\<lparr>pathParts := p\<rparr>"
proof (induction segs xs c rule: capture_all.induct)
  case (1 seg segs x xs c)
  then show ?case by (cases "is_named_variable seg") simp_all
qed simp_all

text \<open>The walk through a node whose only child takes the next segment.\<close>

lemma walk_single_child:
  assumes "inspectors n = []" and "childNodes n = [c]"
    and "pathParts (ctx w) = Some (x # xs)"
    and "isWildcard c \<or> pathSegment c = x"
  shows "walk rt req n q cl w =
           walk rt req c q (update_closestWildcard n cl)
             (w\<lparr>ctx := capture_pathVariable c x ((ctx w)\<lparr>pathParts := Some xs\<rparr>)\<rparr>)"
  using assms
  by (subst walk.simps)
     (auto simp: pathParts_array_def pathParts_shift_def nextChild_def)

text \<open>The walk at a terminal splat that is the recorded closest splat.\<close>

lemma walk_splat_leaf:
  assumes "isWildcard s" and "pathVariable s = ''*''" and "handler s = Some h"
    and "inspectors s = []" and "childNodes s = []"
    and "pathParts (ctx w) = Some ext"
  shows "walk rt req s q (Some s) w =
           return_processed q req h (w\<lparr>ctx := (ctx w)\<lparr>pathParts := Some (tl ext)\<rparr>\<rparr>)"
proof (cases ext)
  case Nil
  then have "(ctx w)\<lparr>pathParts := Some []\<rparr> = ctx w"
    using assms(6) by simp
  then have same: "w\<lparr>ctx := (ctx w)\<lparr>pathParts := Some []\<rparr>\<rparr> = w"
    by simp
  have "walk rt req s q (Some s) w = return_processed q req h w"
    using assms Nil by (subst walk.simps) (simp add: pathParts_array_def)
  then show ?thesis
    by (simp only: Nil list.sel same)
next
  case (Cons b rest)
  then show ?thesis
    using assms
    by (subst walk.simps)
       (simp add: pathParts_array_def pathParts_shift_def nextChild_def
          update_closestWildcard_def wildcardSplitChild_def after_loop_def)
qed


text \<open>
  One route registered on a node without children, inspectors and handler, and a request
  whose remaining segments match it: the walk ends in the route's handler, with the
  captures made and, past a splat, one more segment taken off.
\<close>

lemma walk_registered_route:
  assumes "childNodes (n :: 'm RouteNode) = []" and "inspectors n = []" and "handler n = None"
    and "''*'' \<notin> set (butlast segs)"
    and "pathParts (ctx w) = Some xs" and "matches segs xs"
  shows "walk rt req (fst (addPathPropertyHelper segs (setHandler h) n)) q cl w =
           return_processed q req h
             (w\<lparr>ctx := (capture_all segs xs (ctx w))\<lparr>pathParts := Some (drop (Suc (length segs)) xs)\<rparr>\<rparr>)"
  using assms
proof (induction segs arbitrary: n w xs cl)
  case Nil
  then have xs: "xs = []" by (cases xs) simp_all
  have "(ctx w)\<lparr>pathParts := Some []\<rparr> = ctx w"
    using Nil.prems(5) xs by simp
  then have same: "w\<lparr>ctx := (ctx w)\<lparr>pathParts := Some []\<rparr>\<rparr> = w"
    by simp
  obtain seg wc v ins cs hd where n: "n = RouteNode seg wc v ins cs hd"
    by (cases n)
  have "walk rt req (fst (addPathPropertyHelper [] (setHandler h) n)) q cl w
          = return_processed q req h w"
    using Nil.prems xs n
    by (subst walk.simps) (simp add: pathParts_array_def)
  then show ?case
    by (simp only: xs capture_all.simps drop.simps same)
next
  case (Cons seg rest)
  from Cons.prems(6) obtain x xs' where xs: "xs = x # xs'"
    by (cases xs) simp_all
  have star: "seg = ''*'' \<longrightarrow> rest = []"
    using Cons.prems(4) by (cases rest) auto
  let ?f = "fresh_child seg :: 'm RouteNode"
  let ?c = "fst (addPathPropertyHelper rest (setHandler h) ?f)"
  have built: "fst (addPathPropertyHelper (seg # rest) (setHandler h) n) = addChildNode ?c n"
    using register_on_childless [OF Cons.prems(1) star, of "setHandler h"]
    by (simp only: split_beta fst_conv)
  have label: "isWildcard ?c = isWildcard ?f"
    "pathVariable ?c = pathVariable ?f"
    "pathSegment ?c = pathSegment ?f"
    using addPathPropertyHelper_keeps_label [OF keeps_node_setHandler, where segs = rest and n = "fresh_child seg" and h1 = h]
    by simp_all
  let ?n' = "addChildNode ?c n"
  let ?c1 = "capture_pathVariable ?c x ((ctx w)\<lparr>pathParts := Some xs'\<rparr>)"
  have sel: "isWildcard ?c \<or> pathSegment ?c = x"
    using Cons.prems(6) xs label
    by (auto simp: fresh_child_def is_literal_def split: if_splits)
  have step: "walk rt req ?n' q cl w =
          walk rt req ?c q (update_closestWildcard ?n' cl) (w\<lparr>ctx := ?c1\<rparr>)"
    using Cons.prems(1,2,5) xs sel by (intro walk_single_child) simp_all
  have cap: "?c1 = (if is_named_variable seg then addPathVariable (tl seg) x (ctx w) else ctx w)
                     \<lparr>pathParts := Some xs'\<rparr>"
    using label
    by (auto simp: capture_pathVariable_def fresh_child_def is_named_variable_def)
  show ?case
  proof (cases "seg = ''*''")
    case True
    then have rest: "rest = []" using star by simp
    have leaf: "?c = RouteNode [] True ''*'' [] [] (Some h)"
      using True rest by (simp add: fresh_child_def)
    have closest: "update_closestWildcard ?n' cl = Some ?c"
      using Cons.prems(1) leaf
      by (simp add: update_closestWildcard_def wildcardSplitChild_def)
    have "walk rt req ?c q (Some ?c) (w\<lparr>ctx := ?c1\<rparr>) =
            return_processed q req h
              (w\<lparr>ctx := ?c1\<rparr>\<lparr>ctx := (ctx (w\<lparr>ctx := ?c1\<rparr>))\<lparr>pathParts := Some (tl xs')\<rparr>\<rparr>)"
      by (rule walk_splat_leaf) (simp_all add: leaf capture_pathVariable_def)
    then show ?thesis
      using step closest built xs True rest cap
      by (simp add: is_named_variable_def drop_Suc)
  next
    case False
    then have more: "matches rest xs'"
      using Cons.prems(6) xs by (simp split: if_splits)
    have "''*'' \<notin> set (butlast rest)"
      using Cons.prems(4) by (cases rest) (auto split: if_splits)
    then have "walk rt req ?c q (update_closestWildcard ?n' cl) (w\<lparr>ctx := ?c1\<rparr>) =
            return_processed q req h
              ((w\<lparr>ctx := ?c1\<rparr>)\<lparr>ctx := (capture_all rest xs' (ctx (w\<lparr>ctx := ?c1\<rparr>)))
                   \<lparr>pathParts := Some (drop (Suc (length rest)) xs')\<rparr>\<rparr>)"
      using more by (intro Cons.IH) (simp_all add: cap)
    then show ?thesis
      using step built xs cap by simp
  qed
qed


text \<open>The same for the whole request, on a router whose GET trie holds this one route.\<close>

lemma registered_route_reaches_handler:
  assumes fresh: "get_routes rt0 = new_RouteNode"
    and reg: "get (Path path) h rt0 = (rt, lg)"
    and star: "''*'' \<notin> set (butlast (pathSegmentsFromPath path))"
    and meth: "method req = ''GET''"
    and path: "pathname req \<noteq> []"
      "matches (pathSegmentsFromPath path) (pathSegmentsFromPath (pathname req))"
    and mk: "context_metadata_constructor rt req = Inr m"
  shows "requestHandler rt req =
           try_catch rt req
             (return_processed [] req h
                \<lparr>ctx = (capture_all (pathSegmentsFromPath path) (pathSegmentsFromPath (pathname req))
                          (new_Context req m))
                        \<lparr>pathParts := Some (drop (Suc (length (pathSegmentsFromPath path)))
                                             (pathSegmentsFromPath (pathname req)))\<rparr>,
                 console = []\<rparr>)"
proof -
  let ?segs = "pathSegmentsFromPath path" and ?xs = "pathSegmentsFromPath (pathname req)"
  let ?c0 = "(new_Context req m)\<lparr>pathParts := Some ?xs\<rparr>"
  have trie: "get_routes rt = fst (addPathPropertyHelper ?segs (setHandler h) new_RouteNode)"
    using reg fresh by (auto simp: get_def addPathHandler_def split: prod.splits)
  have start: "pathParts_shift (snd (getPathParts (new_Context req m))) = ?c0"
    using path(1) by (simp add: getPathParts_def new_Context_def pathParts_shift_def
        pathSegmentsFromPath_def Let_def)
  have "walk rt req (fst (addPathPropertyHelper ?segs (setHandler h) new_RouteNode)) [] None
          \<lparr>ctx = ?c0, console = []\<rparr>
        = return_processed [] req h
            (\<lparr>ctx = ?c0, console = []\<rparr>\<lparr>ctx := (capture_all ?segs ?xs (ctx \<lparr>ctx = ?c0, console = []\<rparr>))
                 \<lparr>pathParts := Some (drop (Suc (length ?segs)) ?xs)\<rparr>\<rparr>)"
    using star path(2)
    by (intro walk_registered_route) (simp_all add: new_RouteNode_def)
  then show ?thesis
    using meth mk trie start by (simp add: requestHandler_def try_body_def)
qed

lemma literal_not_named_variable: "is_literal s \<Longrightarrow> \<not> is_named_variable s"
  by (auto simp: is_literal_def is_named_variable_def)

lemma literal_not_splat: "is_literal s \<Longrightarrow> s \<noteq> ''*''"
  by (simp add: is_literal_def)

lemma matches_literal_prefix:
  "list_all is_literal ls \<Longrightarrow> segs \<noteq> [] \<Longrightarrow> matches (ls @ segs) (ls @ xs) = matches segs xs"
  by (induction ls) (auto simp: literal_not_splat)

lemma matches_literals: "list_all is_literal ls \<Longrightarrow> matches ls ls"
  by (induction ls) (auto simp: literal_not_splat)

lemma capture_all_literal_prefix:
  "list_all is_literal ls \<Longrightarrow> capture_all (ls @ segs) (ls @ xs) c = capture_all segs xs c"
  by (induction ls) (auto simp: literal_not_named_variable)

lemma capture_all_literals: "list_all is_literal ls \<Longrightarrow> capture_all ls xs c = c"
  by (induction ls xs c rule: capture_all.induct) (auto simp: literal_not_named_variable)


text \<open>Whenever the walk selects a named-variable child for the last segment, the binding
  is in the context before the child's handler is called.\<close>

lemma walk_captures_path_variable:
  assumes "processInspectors rt req (inspectors p) q w = Continues q' w'"
    and "pathParts (ctx w') = Some [x]"
    and "nextChild p x = Some c"
    and "isWildcard c" and "pathVariable c \<noteq> ''*''"
    and "inspectors c = []" and "handler c = Some h"
  shows "walk rt req p q cl w =
           return_processed q' req h
             (w'\<lparr>ctx := addPathVariable (pathVariable c) x ((ctx w')\<lparr>pathParts := Some []\<rparr>)\<rparr>)"
proof -
  have "walk rt req p q cl w =
          walk rt req c q' (update_closestWildcard p cl)
            (w'\<lparr>ctx := addPathVariable (pathVariable c) x ((ctx w')\<lparr>pathParts := Some []\<rparr>)\<rparr>)"
    using assms(1-5)
    by (subst walk.simps)
       (simp add: pathParts_array_def pathParts_shift_def capture_pathVariable_def)
  also have "\<dots> = return_processed q' req h
             (w'\<lparr>ctx := addPathVariable (pathVariable c) x ((ctx w')\<lparr>pathParts := Some []\<rparr>)\<rparr>)"
    using assms(6,7)
    by (subst walk.simps) (simp add: pathParts_array_def addPathVariable_def)
  finally show ?thesis .
qed

text \<open>
  An inspector registered alone, on a path without \<^verbatim>\<open>*\<close>: the walk reaches its node when
  the request path extends the registered one by \<open>beyond\<close>, runs the inspector loop on the
  inspector there, and (no handler being in the trie) ends at the not-found handler.
\<close>

lemma setChildNodes_more_sel [simp]:
  "inspectors (setChildNodes cs n) = inspectors n"
  "handler (setChildNodes cs n) = handler n"
  by (cases n; simp)+

lemma addPathPropertyHelper_keeps_handler:
  "handler (fst (addPathPropertyHelper (seg # rest) f n)) = handler n"
  by (simp add: Let_def split: option.splits prod.splits)

lemma addPathPropertyHelper_addInspector_handler:
  "handler (fst (addPathPropertyHelper segs (addInspector i) n)) = handler n"
proof (cases segs)
  case Nil
  then show ?thesis by (cases n) simp
next
  case (Cons seg rest)
  then show ?thesis
    by (simp only: addPathPropertyHelper_keeps_handler)
qed

lemma walk_registered_inspector:
  assumes "childNodes (n :: 'm RouteNode) = []" and "inspectors n = []" and "handler n = None"
    and "''*'' \<notin> set segs"
    and "pathParts (ctx w) = Some (xs @ beyond)" and "matches segs xs"
  shows "walk rt req (fst (addPathPropertyHelper segs (addInspector i) n)) q cl w =
           (case processInspectors rt req [i] q
                   (w\<lparr>ctx := (capture_all segs xs (ctx w))\<lparr>pathParts := Some beyond\<rparr>\<rparr>) of
              Exit x \<Rightarrow> x
            | Continues q2 w2 \<Rightarrow>
                (if pathParts_array (ctx w2) = []
                 then return_processed q2 req (not_found_handler rt) w2
                 else after_loop rt req q2 cl (w2\<lparr>ctx := pathParts_shift (ctx w2)\<rparr>)))"
  using assms
proof (induction segs arbitrary: n w xs cl)
  case Nil
  then have xs: "xs = []" by (cases xs) simp_all
  have "(ctx w)\<lparr>pathParts := Some beyond\<rparr> = ctx w"
    using Nil.prems(5) xs by simp
  then have same: "w\<lparr>ctx := (ctx w)\<lparr>pathParts := Some beyond\<rparr>\<rparr> = w"
    by simp
  obtain seg wc pv ins cs hd where n: "n = RouteNode seg wc pv ins cs hd"
    by (cases n)
  have node: "fst (addPathPropertyHelper [] (addInspector i) n) = RouteNode seg wc pv [i] [] None"
    using Nil.prems(1,2,3) n by simp
  have "walk rt req (RouteNode seg wc pv [i] [] None) q cl w =
           (case processInspectors rt req [i] q w of
              Exit x \<Rightarrow> x
            | Continues q2 w2 \<Rightarrow>
                (if pathParts_array (ctx w2) = []
                 then return_processed q2 req (not_found_handler rt) w2
                 else after_loop rt req q2 cl (w2\<lparr>ctx := pathParts_shift (ctx w2)\<rparr>)))"
    by (subst walk.simps)
       (simp add: nextChild_def update_closestWildcard_def wildcardSplitChild_def Let_def
          split: inspected.splits)
  then show ?case
    by (simp only: node xs capture_all.simps same)
next
  case (Cons seg rest)
  from Cons.prems(6) obtain x xs' where xs: "xs = x # xs'"
    by (cases xs) simp_all
  have star: "seg \<noteq> ''*''" "''*'' \<notin> set rest"
    using Cons.prems(4) by auto
  let ?f = "fresh_child seg :: 'm RouteNode"
  let ?c = "fst (addPathPropertyHelper rest (addInspector i) ?f)"
  have built: "fst (addPathPropertyHelper (seg # rest) (addInspector i) n) = addChildNode ?c n"
    using register_on_childless [OF Cons.prems(1), of seg rest "addInspector i"] star(1)
    by (simp only: split_beta fst_conv simp_thms)
  have label: "isWildcard ?c = isWildcard ?f"
    "pathVariable ?c = pathVariable ?f"
    "pathSegment ?c = pathSegment ?f"
    using addPathPropertyHelper_keeps_label
            [OF keeps_node_addInspector, where segs = rest and n = "fresh_child seg" and i1 = i]
    by simp_all
  have blank: "childNodes ?f = []" "inspectors ?f = []" "handler ?f = None"
    by (simp_all add: fresh_child_def)
  have noh: "handler ?c = None"
    by (simp add: addPathPropertyHelper_addInspector_handler blank)
  let ?n' = "addChildNode ?c n"
  let ?c1 = "capture_pathVariable ?c x ((ctx w)\<lparr>pathParts := Some (xs' @ beyond)\<rparr>)"
  have sel: "isWildcard ?c \<or> pathSegment ?c = x"
    using Cons.prems(6) xs label star(1)
    by (auto simp: fresh_child_def is_literal_def split: if_splits)
  have step: "walk rt req ?n' q cl w =
          walk rt req ?c q (update_closestWildcard ?n' cl) (w\<lparr>ctx := ?c1\<rparr>)"
    using Cons.prems(1,2,5) xs sel by (intro walk_single_child) simp_all
  have cap: "?c1 = (if is_named_variable seg then addPathVariable (tl seg) x (ctx w) else ctx w)
                     \<lparr>pathParts := Some (xs' @ beyond)\<rparr>"
    using label
    by (auto simp: capture_pathVariable_def fresh_child_def is_named_variable_def)
  have deeper: "matches rest xs'"
    using Cons.prems(6) xs star(1) by (simp split: if_splits)
  have closest: "update_closestWildcard ?n' cl = cl"
    using Cons.prems(1) noh
    by (simp add: update_closestWildcard_def wildcardSplitChild_def split: option.splits)
  have "walk rt req ?c q cl (w\<lparr>ctx := ?c1\<rparr>) =
           (case processInspectors rt req [i] q
                   ((w\<lparr>ctx := ?c1\<rparr>)\<lparr>ctx := (capture_all rest xs' (ctx (w\<lparr>ctx := ?c1\<rparr>)))
                        \<lparr>pathParts := Some beyond\<rparr>\<rparr>) of
              Exit x \<Rightarrow> x
            | Continues q2 w2 \<Rightarrow>
                (if pathParts_array (ctx w2) = []
                 then return_processed q2 req (not_found_handler rt) w2
                 else after_loop rt req q2 cl (w2\<lparr>ctx := pathParts_shift (ctx w2)\<rparr>)))"
    using deeper star(2) blank
    by (intro Cons.IH) (simp_all add: cap)
  then show ?case
    using step closest built xs cap by simp
qed

text \<open>The same for the whole request, on a router whose GET trie holds this one inspector.\<close>

lemma registered_inspector_fires_in_scope:
  assumes fresh: "get_routes rt0 = new_RouteNode"
    and reg: "addGetInspector (Path path) i rt0 = (rt, lg)"
    and star: "''*'' \<notin> set (pathSegmentsFromPath path)"
    and meth: "method req = ''GET''"
    and path: "pathname req \<noteq> []"
      "pathSegmentsFromPath (pathname req) = xs @ beyond"
      "matches (pathSegmentsFromPath path) xs"
    and mk: "context_metadata_constructor rt req = Inr m"
  shows "requestHandler rt req =
           try_catch rt req
             (case processInspectors rt req [i] []
                     \<lparr>ctx = (capture_all (pathSegmentsFromPath path) xs (new_Context req m))
                              \<lparr>pathParts := Some beyond\<rparr>,
                      console = []\<rparr> of
                Exit x \<Rightarrow> x
              | Continues q2 w2 \<Rightarrow>
                  return_processed q2 req (not_found_handler rt)
                    (w2\<lparr>ctx := pathParts_shift (ctx w2)\<rparr>))"
proof -
  let ?segs = "pathSegmentsFromPath path"
  let ?c0 = "(new_Context req m)\<lparr>pathParts := Some (xs @ beyond)\<rparr>"
  let ?w0 = "\<lparr>ctx = ?c0, console = []\<rparr> :: 'a world"
  have trie: "get_routes rt = fst (addPathPropertyHelper ?segs (addInspector i) new_RouteNode)"
    using reg fresh by (auto simp: addGetInspector_def addPathInspector_def split: prod.splits)
  have start: "pathParts_shift (snd (getPathParts (new_Context req m))) = ?c0"
    using path(1,2) by (simp add: getPathParts_def new_Context_def pathParts_shift_def
        pathSegmentsFromPath_def Let_def)
  have same: "w2\<lparr>ctx := pathParts_shift (ctx w2)\<rparr> = w2"
    if "pathParts_array (ctx w2) = []" for w2 :: "'a world"
    using that by (simp add: pathParts_array_def pathParts_shift_def split: option.splits)
  have "walk rt req (fst (addPathPropertyHelper ?segs (addInspector i) new_RouteNode)) [] None ?w0
        = (case processInspectors rt req [i] []
                   (?w0\<lparr>ctx := (capture_all ?segs xs (ctx ?w0))\<lparr>pathParts := Some beyond\<rparr>\<rparr>) of
              Exit x \<Rightarrow> x
            | Continues q2 w2 \<Rightarrow>
                (if pathParts_array (ctx w2) = []
                 then return_processed q2 req (not_found_handler rt) w2
                 else after_loop rt req q2 None (w2\<lparr>ctx := pathParts_shift (ctx w2)\<rparr>)))"
    using star path(3)
    by (intro walk_registered_inspector) (simp_all add: new_RouteNode_def)
  then show ?thesis
    using meth mk trie start same
    by (simp add: requestHandler_def try_body_def after_loop_def
          del: processInspectors.simps split: inspected.splits)
qed

section \<open>The claims\<close>

subsection \<open>Faults during dispatch\<close>

text \<open>
  C1. The claim: every fault of a callback during dispatch (handler, request inspector,
  response inspector, metadata factory; thrown or rejected) is caught and turned into the
  server-error response, so the promise of \<^verbatim>\<open>requestHandler\<close> never rejects. The code
  returns \<^verbatim>\<open>processResponseInspectors(...)\<close> without \<^verbatim>\<open>await\<close>, so a handler whose promise
  rejects leaves the \<^verbatim>\<open>try\<close> unnoticed: for the single route \<^verbatim>\<open>GET /\<close> with an async
  handler that fails with \<^verbatim>\<open>boom\<close>, the promise of \<^verbatim>\<open>requestHandler\<close> rejects with \<^verbatim>\<open>boom\<close>,
  nothing is logged and the server-error handler is not called.
\<close>

theorem requestHandler_async_handler_fault_escapes:
  "requestHandler (fst (get (Path ''/'') (async_failing ''boom'') plain_Router)) (GET ''/'') =
     (Inl ''boom'', [],
      Some \<lparr>url_pathname = ''/'', pathVariables = None, meta = (), pathParts = Some []\<rparr>)"
  by code_simp

text \<open>
  What the \<^verbatim>\<open>try\<close> of \<^verbatim>\<open>requestHandler\<close> does with the two ways of leaving it: a thrown
  fault goes to the \<^verbatim>\<open>catch\<close>, which logs it and returns the server-error handler's output
  without running the queued response inspectors; a returned promise that rejects is the
  result. A handler that throws is caught; a response inspector that throws is not (it
  runs inside the un-awaited \<^verbatim>\<open>processResponseInspectors\<close>); the metadata constructor is
  called before the \<^verbatim>\<open>try\<close>.
\<close>

lemma thrown_fault_is_caught:
  "try_catch rt req (Throws e w) = catch_block rt req e w"
  by (simp add: try_catch_def)

lemma returned_rejection_passes_the_catch:
  "try_catch rt req (Returns (Inl e) w) = (Inl e, console w, Some (ctx w))"
  by (simp add: try_catch_def)

lemma rejected_handler_promise_is_returned:
  "f req (ctx w) = (Inr (Promise (Inl e)), c') \<Longrightarrow>
   return_processed q req f w = Returns (Inl e) (w\<lparr>ctx := c'\<rparr>)"
  by (simp add: return_processed_def processResponseInspectors_def)

lemma metadata_constructor_fault_escapes:
  "context_metadata_constructor rt req = Inl e \<Longrightarrow> requestHandler rt req = (Inl e, [], None)"
  by (simp add: requestHandler_def)

lemma sync_handler_fault_is_caught:
  "requestHandler (fst (get (Path ''/'') (sync_failing ''boom'') plain_Router)) (GET ''/'') =
     (Inr \<lparr>status = 500, body = ''Internal Server Error'',
           headers = [(''content-type'', ''text/plain;charset=UTF-8'')]\<rparr>,
      [ERROR_caught ''boom''],
      Some \<lparr>url_pathname = ''/'', pathVariables = None, meta = (), pathParts = Some []\<rparr>)"
  by code_simp

lemma response_inspector_fault_escapes:
  "requestHandler
     (fst (addGetInspector (Path ''/'') (new_Inspector None (Some (failing_observer ''boom'')) None)
        (fst (get (Path ''/'') (respond 200 ''ok'') plain_Router)))) (GET ''/'') =
     (Inl ''boom'', [],
      Some \<lparr>url_pathname = ''/'', pathVariables = None, meta = (), pathParts = Some []\<rparr>)"
  by code_simp

subsection \<open>Selecting the next node\<close>

text \<open>
  C2, as amended. At every step of the walk, dispatch selects the first child, in the
  order of the child list (the order of registration), that is a wildcard or whose
  segment equals the popped segment. So a matching literal child is selected when no
  wildcard child and no other match stands before it, and a wildcard child is selected
  when no match stands before it, whether or not a matching literal child follows.
  Stated for any iteration of the loop: the inspectors of the node have run to their end
  and a segment remains.
\<close>

theorem walk_selects_first_matching_child:
  assumes "processInspectors rt req (inspectors node) q w = Continues q' w'"
    and "pathParts_array (ctx w') = seg # rest"
    and "childNodes node = pre @ c # later"
    and "isWildcard c \<or> pathSegment c = seg"
    and "\<forall>x\<in>set pre. \<not> isWildcard x \<and> pathSegment x \<noteq> seg"
  shows "nextChild node seg = Some c \<and>
         walk rt req node q cl w =
           walk rt req c q' (update_closestWildcard node cl)
             (w'\<lparr>ctx := capture_pathVariable c seg (pathParts_shift (ctx w'))\<rparr>)"
proof -
  have "nextChild node seg = Some c"
    unfolding nextChild_def using assms(3,4,5)
    by (simp add: find_first_match)
  then show ?thesis
    using walk_descend [OF assms(1,2)] by simp
qed

text \<open>
  Witness: a node with the children \<^verbatim>\<open>posts\<close>, \<^verbatim>\<open>:id\<close>, \<^verbatim>\<open>users\<close>, in this order, and the
  segment \<^verbatim>\<open>users\<close>: the variable child is selected, the literal child \<^verbatim>\<open>users\<close> is not.
\<close>

theorem walk_selects_first_matching_child_witness:
  "nextChild
     (RouteNode [] False [] []
        [RouteNode ''posts'' False [] [] [] None,
         RouteNode [] True ''id'' [] [] (Some (respond 200 ''variable'')),
         RouteNode ''users'' False [] [] [] (Some (respond 200 ''literal''))] None
      :: unit RouteNode) ''users''
   = Some (RouteNode [] True ''id'' [] [] (Some (respond 200 ''variable'')))
   \<and> walk plain_Router (GET ''/users'')
       (RouteNode [] False [] []
          [RouteNode ''posts'' False [] [] [] None,
           RouteNode [] True ''id'' [] [] (Some (respond 200 ''variable'')),
           RouteNode ''users'' False [] [] [] (Some (respond 200 ''literal''))] None) [] None
       \<lparr>ctx = \<lparr>url_pathname = ''/users'', pathVariables = None, meta = (),
               pathParts = Some [''users'']\<rparr>, console = []\<rparr>
     = Returns (Inr \<lparr>status = 200, body = ''variable'', headers = []\<rparr>)
         \<lparr>ctx = \<lparr>url_pathname = ''/users'', pathVariables = Some [(''id'', ''users'')], meta = (),
                 pathParts = Some []\<rparr>, console = []\<rparr>"
proof -
  let ?v = "RouteNode [] True ''id'' [] [] (Some (respond 200 ''variable'')) :: unit RouteNode"
  let ?node = "RouteNode [] False [] []
        [RouteNode ''posts'' False [] [] [] None, ?v,
         RouteNode ''users'' False [] [] [] (Some (respond 200 ''literal''))] None"
  let ?w = "\<lparr>ctx = \<lparr>url_pathname = ''/users'', pathVariables = None, meta = (),
               pathParts = Some [''users'']\<rparr>, console = []\<rparr>"
  have step: "nextChild ?node ''users'' = Some ?v \<and>
        walk plain_Router (GET ''/users'') ?node [] None ?w =
          walk plain_Router (GET ''/users'') ?v [] (update_closestWildcard ?node None)
            (?w\<lparr>ctx := capture_pathVariable ?v ''users'' (pathParts_shift (ctx ?w))\<rparr>)"
    by (rule walk_selects_first_matching_child
          [where pre = "[RouteNode ''posts'' False [] [] [] None]"
             and later = "[RouteNode ''users'' False [] [] [] (Some (respond 200 ''literal''))]"
             and rest = "[]"])
       (simp_all add: pathParts_array_def)
  have "walk plain_Router (GET ''/users'') ?v [] (update_closestWildcard ?node None)
            (?w\<lparr>ctx := capture_pathVariable ?v ''users'' (pathParts_shift (ctx ?w))\<rparr>)
        = Returns (Inr \<lparr>status = 200, body = ''variable'', headers = []\<rparr>)
         \<lparr>ctx = \<lparr>url_pathname = ''/users'', pathVariables = Some [(''id'', ''users'')], meta = (),
                 pathParts = Some []\<rparr>, console = []\<rparr>"
    by (subst walk.simps)
       (simp add: pathParts_array_def pathParts_shift_def capture_pathVariable_def
          addPathVariable_def return_processed_def processResponseInspectors_def respond_def)
  with step show ?thesis by simp
qed

text \<open>
  Counterexample to C2 as stated: after \<^verbatim>\<open>router.get("/:id", variable)\<close> and then
  \<^verbatim>\<open>router.get("/users", literal)\<close> the root has a wildcard child and a literal child
  \<^verbatim>\<open>users\<close>; for the request \<^verbatim>\<open>GET /users\<close> the popped segment equals the literal child's
  segment, yet the wildcard child is selected and its handler answers.
\<close>

theorem literal_child_not_preferred_counterexample:
  "map (\<lambda>n. (isWildcard n, pathSegment n)) (childNodes (get_routes variable_then_literal))
     = [(True, []), (False, ''users'')]
   \<and> map_option isWildcard (nextChild (get_routes variable_then_literal) ''users'') = Some True
   \<and> requestHandler variable_then_literal (GET ''/users'')
     = (Inr \<lparr>status = 200, body = ''variable'', headers = []\<rparr>, [],
        Some \<lparr>url_pathname = ''/users'', pathVariables = Some [(''id'', ''users'')], meta = (),
              pathParts = Some []\<rparr>)"
  by code_simp

subsection \<open>Wildcard children\<close>

text \<open>
  C3, as amended. A fresh trie has no node with two wildcard children, and a registration
  (of a handler or of an inspector) whose path has no \<^verbatim>\<open>*\<close> segment keeps it so. A
  named-variable segment met at a node that has a wildcard child is registered on that
  child: the rest of the path (the action itself, when nothing is left) is applied to the
  node's first wildcard child, and the result takes that child's place among the
  children, the other children staying as they were. The child stays a wildcard and
  keeps its variable name: when the registered name differs, the difference is logged
  and the registration goes on under the existing name.
\<close>

theorem registration_without_splat_keeps_one_wildcard_child:
  assumes "one_wildcard_child n" and "''*'' \<notin> set segs"
  shows "one_wildcard_child (new_RouteNode :: 'm RouteNode)
       \<and> one_wildcard_child (fst (addPathHandler segs h (n :: 'm RouteNode)))
       \<and> one_wildcard_child (fst (addPathInspector segs i n))
       \<and> (find isWildcard (childNodes n) = Some child \<and> b \<noteq> [] \<longrightarrow>
            fst (addPathHandler ((CHR '':'' # b) # rest) h n) =
              setChildNodes
                (replace_first isWildcard (fst (addPathHandler rest h child)) (childNodes n)) n
            \<and> fst (addPathInspector ((CHR '':'' # b) # rest) i n) =
              setChildNodes
                (replace_first isWildcard (fst (addPathInspector rest i child)) (childNodes n)) n
            \<and> isWildcard (fst (addPathHandler rest h child))
            \<and> isWildcard (fst (addPathInspector rest i child))
            \<and> pathVariable (fst (addPathHandler rest h child)) = pathVariable child
            \<and> pathVariable (fst (addPathInspector rest i child)) = pathVariable child
            \<and> map pathVariable (childNodes (fst (addPathHandler ((CHR '':'' # b) # rest) h n)))
              = map pathVariable (childNodes n)
            \<and> map pathVariable (childNodes (fst (addPathInspector ((CHR '':'' # b) # rest) i n)))
              = map pathVariable (childNodes n)
            \<and> (pathVariable child \<noteq> b \<longrightarrow>
                 ERROR_path_variable_global_consistency (pathVariable child) b
                   \<in> set (snd (addPathHandler ((CHR '':'' # b) # rest) h n))
                 \<and> ERROR_path_variable_global_consistency (pathVariable child) b
                   \<in> set (snd (addPathInspector ((CHR '':'' # b) # rest) i n))))"
proof (intro conjI impI)
  show "one_wildcard_child (new_RouteNode :: 'm RouteNode)"
    by (simp add: new_RouteNode_def)
  show "one_wildcard_child (fst (addPathHandler segs h n))"
    unfolding addPathHandler_def
    using keeps_node_setHandler assms(2,1) by (rule addPathPropertyHelper_one_wildcard_child)
  show "one_wildcard_child (fst (addPathInspector segs i n))"
    unfolding addPathInspector_def
    using keeps_node_addInspector assms(2,1) by (rule addPathPropertyHelper_one_wildcard_child)
next
  assume found: "find isWildcard (childNodes n) = Some child \<and> b \<noteq> []"
  then have wild: "isWildcard child"
    by (auto simp: find_Some_iff)
  show "fst (addPathHandler ((CHR '':'' # b) # rest) h n) =
          setChildNodes
            (replace_first isWildcard (fst (addPathHandler rest h child)) (childNodes n)) n"
    unfolding addPathHandler_def
    using found by (cases rest) (simp_all add: Let_def split_beta)
  show "fst (addPathInspector ((CHR '':'' # b) # rest) i n) =
          setChildNodes
            (replace_first isWildcard (fst (addPathInspector rest i child)) (childNodes n)) n"
    unfolding addPathInspector_def
    using found by (cases rest) (simp_all add: Let_def split_beta)
  show "isWildcard (fst (addPathHandler rest h child))"
    unfolding addPathHandler_def
    using addPathPropertyHelper_keeps_label
            [OF keeps_node_setHandler, where segs = rest and n = child and h1 = h] wild
    by simp
  show "isWildcard (fst (addPathInspector rest i child))"
    unfolding addPathInspector_def
    using addPathPropertyHelper_keeps_label
            [OF keeps_node_addInspector, where segs = rest and n = child and i1 = i] wild
    by simp
  show "pathVariable (fst (addPathHandler rest h child)) = pathVariable child"
    unfolding addPathHandler_def
    using addPathPropertyHelper_keeps_label
            [OF keeps_node_setHandler, where segs = rest and n = child and h1 = h]
    by simp
  show "pathVariable (fst (addPathInspector rest i child)) = pathVariable child"
    unfolding addPathInspector_def
    using addPathPropertyHelper_keeps_label
            [OF keeps_node_addInspector, where segs = rest and n = child and i1 = i]
    by simp
  have labels: "map (\<lambda>c. (isWildcard c, pathVariable c, pathSegment c))
           (childNodes (fst (addPathPropertyHelper ((CHR '':'' # b) # rest) f n)))
         = map (\<lambda>c. (isWildcard c, pathVariable c, pathSegment c)) (childNodes n)"
    if "keeps_node f" for f
    using variable_segment_reuses_wildcard_child(1) [OF that] found by blast
  have names: "map pathVariable (childNodes (fst (addPathPropertyHelper ((CHR '':'' # b) # rest) f n)))
         = map pathVariable (childNodes n)"
    if "keeps_node f" for f
  proof -
    have "map (fst \<circ> snd) (map (\<lambda>c. (isWildcard c, pathVariable c, pathSegment c))
           (childNodes (fst (addPathPropertyHelper ((CHR '':'' # b) # rest) f n))))
         = map (fst \<circ> snd) (map (\<lambda>c. (isWildcard c, pathVariable c, pathSegment c)) (childNodes n))"
      using labels [OF that] by simp
    then show ?thesis by (simp add: comp_def)
  qed
  show "map pathVariable (childNodes (fst (addPathHandler ((CHR '':'' # b) # rest) h n)))
              = map pathVariable (childNodes n)"
    unfolding addPathHandler_def by (rule names [OF keeps_node_setHandler])
  show "map pathVariable (childNodes (fst (addPathInspector ((CHR '':'' # b) # rest) i n)))
              = map pathVariable (childNodes n)"
    unfolding addPathInspector_def by (rule names [OF keeps_node_addInspector])
  assume differ: "pathVariable child \<noteq> b"
  show "ERROR_path_variable_global_consistency (pathVariable child) b
                   \<in> set (snd (addPathHandler ((CHR '':'' # b) # rest) h n))"
    unfolding addPathHandler_def
    using variable_segment_reuses_wildcard_child(2) [OF keeps_node_setHandler] found differ by blast
  show "ERROR_path_variable_global_consistency (pathVariable child) b
                   \<in> set (snd (addPathInspector ((CHR '':'' # b) # rest) i n))"
    unfolding addPathInspector_def
    using variable_segment_reuses_wildcard_child(2) [OF keeps_node_addInspector] found differ by blast
qed

text \<open>
  Witness: on the trie left by \<^verbatim>\<open>router.get("/:a", first)\<close>, registering a handler or an
  inspector at \<^verbatim>\<open>/:b/x\<close> keeps one wildcard child at the root, still named \<^verbatim>\<open>a\<close>, puts the
  node \<^verbatim>\<open>x\<close> with the handler (the inspector) below that child, and logs the two names.
\<close>

theorem registration_without_splat_keeps_one_wildcard_child_witness:
  "one_wildcard_child
     (fst (addPathHandler ['':b'', ''x''] (respond 200 ''second'')
        (RouteNode [] False [] []
           [RouteNode [] True ''a'' [] [] (Some (respond 200 ''first''))] None :: unit RouteNode)))
   \<and> one_wildcard_child
     (fst (addPathInspector ['':b'', ''x''] (new_Inspector None None None)
        (RouteNode [] False [] []
           [RouteNode [] True ''a'' [] [] (Some (respond 200 ''first''))] None :: unit RouteNode)))
   \<and> fst (addPathHandler ['':b'', ''x''] (respond 200 ''second'')
          (RouteNode [] False [] []
             [RouteNode [] True ''a'' [] [] (Some (respond 200 ''first''))] None :: unit RouteNode))
     = RouteNode [] False [] []
         [RouteNode [] True ''a'' []
            [RouteNode ''x'' False [] [] [] (Some (respond 200 ''second''))]
            (Some (respond 200 ''first''))] None
   \<and> fst (addPathInspector ['':b'', ''x''] (new_Inspector None None None)
          (RouteNode [] False [] []
             [RouteNode [] True ''a'' [] [] (Some (respond 200 ''first''))] None :: unit RouteNode))
     = RouteNode [] False [] []
         [RouteNode [] True ''a'' []
            [RouteNode ''x'' False [] [new_Inspector None None None] [] None]
            (Some (respond 200 ''first''))] None
   \<and> ERROR_path_variable_global_consistency ''a'' ''b''
       \<in> set (snd (addPathHandler ['':b'', ''x''] (respond 200 ''second'')
           (RouteNode [] False [] []
              [RouteNode [] True ''a'' [] [] (Some (respond 200 ''first''))] None :: unit RouteNode)))
   \<and> ERROR_path_variable_global_consistency ''a'' ''b''
       \<in> set (snd (addPathInspector ['':b'', ''x''] (new_Inspector None None None)
           (RouteNode [] False [] []
              [RouteNode [] True ''a'' [] [] (Some (respond 200 ''first''))] None :: unit RouteNode)))
   \<and> get_routes (fst renamed_variable)
     = RouteNode [] False [] []
         [RouteNode [] True ''a'' []
            [RouteNode ''x'' False [] [] [] (Some (respond 200 ''second''))]
            (Some (respond 200 ''first''))] None
   \<and> fst (requestHandler (fst renamed_variable) (GET ''/7/x''))
     = Inr \<lparr>status = 200, body = ''second'', headers = []\<rparr>"
proof -
  let ?child = "RouteNode [] True ''a'' [] [] (Some (respond 200 ''first'')) :: unit RouteNode"
  let ?n = "RouteNode [] False [] [] [?child] None"
  have below:
    "fst (addPathHandler [''x''] (respond 200 ''second'') ?child)
       = RouteNode [] True ''a'' [] [RouteNode ''x'' False [] [] [] (Some (respond 200 ''second''))]
           (Some (respond 200 ''first''))"
    "fst (addPathInspector [''x''] (new_Inspector None None None) ?child)
       = RouteNode [] True ''a'' [] [RouteNode ''x'' False [] [new_Inspector None None None] [] None]
           (Some (respond 200 ''first''))"
    by (simp_all add: addPathHandler_def addPathInspector_def new_RouteNode_def)
  have registered: "get_routes (fst renamed_variable)
       = RouteNode [] False [] []
           [RouteNode [] True ''a'' []
              [RouteNode ''x'' False [] [] [] (Some (respond 200 ''second''))]
              (Some (respond 200 ''first''))] None"
    by (simp add: renamed_variable_def get_def addPathHandler_def pathSegmentsFromPath_def
          plain_Router_def new_Router_def new_RouteNode_def Let_def)
  have answered: "fst (requestHandler (fst renamed_variable) (GET ''/7/x''))
       = Inr \<lparr>status = 200, body = ''second'', headers = []\<rparr>"
    by code_simp
  show ?thesis
    using registration_without_splat_keeps_one_wildcard_child
      [of ?n "['':b'', ''x'']" "respond 200 ''second''" "new_Inspector None None None"
          ?child "''b''" "[''x'']"]
    by (simp add: below registered answered)
qed

text \<open>
  Counterexample to C3 as stated. After \<^verbatim>\<open>router.get("/files/*", first)\<close> and
  \<^verbatim>\<open>router.get("/files/*", second)\<close> the node \<^verbatim>\<open>files\<close> has two wildcard children. After
  \<^verbatim>\<open>router.get("/:a", first)\<close> and \<^verbatim>\<open>router.get("/:b/x", second)\<close> the second path has reached
  the root's wildcard child under the name \<^verbatim>\<open>b\<close>, the child is named \<^verbatim>\<open>a\<close>, and the
  difference was logged.
\<close>

theorem two_wildcard_children_counterexample:
  "map (\<lambda>n. map (\<lambda>c. (isWildcard c, pathVariable c)) (childNodes n))
     (childNodes (get_routes splat_twice)) = [[(True, ''*''), (True, ''*'')]]
   \<and> \<not> one_wildcard_child (get_routes splat_twice)
   \<and> map pathVariable (childNodes (get_routes (fst renamed_variable))) = [''a'']
   \<and> snd renamed_variable = [ERROR_path_variable_global_consistency ''a'' ''b'']"
  by code_simp

subsection \<open>Splat routes\<close>




subsection \<open>A halting request inspector\<close>

text \<open>
  C5. When an in-scope request inspector of a node returns (directly or through a
  promise) an outcome carrying a response, the walk ends at once: its result is the
  promise of \<^verbatim>\<open>processResponseInspectors\<close> run on the queue collected before that inspector
  (\<open>q1\<close>) and on the halt response. The halting inspector's own response inspector, the
  later inspectors, the handler and the children of the node play no part: the result
  is the same for the node stripped of them. When every queued response inspector runs
  to its end, each of them is called once, in queue order, the first with the halt
  response and the context the halting inspector left, the next with what its predecessor
  left, and the promise fulfils with the response the last one leaves: the halt response
  itself when they leave the response as it is. The queue \<open>q1\<close> is what was queued on the
  way, followed by the response inspectors of the node's earlier inspectors in their
  order (stated for earlier inspectors with \<^verbatim>\<open>observeChildPaths\<close> set, which are in scope
  whatever remains of the path).
\<close>

theorem halt_response_ends_dispatch:
  assumes "inspectors node = pre @ i # later"
    and "processInspectors rt req pre q w = Continues q1 w1"
    and "in_scope i (ctx w1)"
    and "requestInspector i = Some ri"
    and "ri req (ctx w1) = (Inr v, c')"
    and "await v = Inr rir"
    and "response rir = Some resp"
  shows "walk rt req node q cl w =
           (case processResponseInspectors q1 req (Plain resp) c' of
              (p, c'') \<Rightarrow> Returns p (w1\<lparr>ctx := c''\<rparr>))
       \<and> walk rt req node q cl w =
           walk rt req (RouteNode (pathSegment node) (isWildcard node) (pathVariable node)
                          (pre @ [i]) [] None) q cl w
       \<and> ((\<forall>rsi\<in>set q1. \<forall>r c. \<exists>u c2. rsi req r c = (Inr u, r, c2) \<and> await u = Inr ()) \<longrightarrow>
            (\<exists>w2. walk rt req node q cl w = Returns (Inr resp) w2))
       \<and> ((\<forall>rsi\<in>set q1. \<forall>r c. \<exists>u. fst (rsi req r c) = Inr u \<and> await u = Inr ()) \<longrightarrow>
            walk rt req node q cl w =
              Returns (Inr (fst (foldl (\<lambda>(r, c) rsi. snd (rsi req r c)) (resp, c') q1)))
                (w1\<lparr>ctx := snd (foldl (\<lambda>(r, c) rsi. snd (rsi req r c)) (resp, c') q1)\<rparr>))
       \<and> ((\<forall>j\<in>set pre. observeChildPaths j) \<longrightarrow>
            q1 = q @ List.map_filter responseInspector pre)"
proof -
  let ?halt = "case processResponseInspectors q1 req (Plain resp) c' of
                 (p, c'') \<Rightarrow> Returns p (w1\<lparr>ctx := c''\<rparr>)"
  have ends: "processInspectors rt req (pre @ i # rest) q w = Exit ?halt" for rest
    using assms(2-7) by (simp add: processInspectors_append split: prod.splits)
  have here: "walk rt req node q cl w = ?halt"
    using ends [of later] assms(1) by (simp add: walk_halted)
  have stripped: "walk rt req (RouteNode (pathSegment node) (isWildcard node) (pathVariable node)
                          (pre @ [i]) [] None) q cl w = ?halt"
    using ends [of "[]"] by (simp add: walk_halted)
  have kept: "\<exists>w2. walk rt req node q cl w = Returns (Inr resp) w2"
    if "\<forall>rsi\<in>set q1. \<forall>r c. \<exists>u c2. rsi req r c = (Inr u, r, c2) \<and> await u = Inr ()"
  proof -
    have "fst (forEach_responseInspector q1 req resp c') = Inr resp"
      using that by (rule forEach_responseInspector_keeps)
    then show ?thesis
      using here by (auto simp: processResponseInspectors_def split: prod.splits)
  qed
  have in_order: "forEach_responseInspector qs req r c =
           (Inr (fst (foldl (\<lambda>(r, c) rsi. snd (rsi req r c)) (r, c) qs)),
            snd (foldl (\<lambda>(r, c) rsi. snd (rsi req r c)) (r, c) qs))"
    if "\<forall>rsi\<in>set qs. \<forall>r c. \<exists>u. fst (rsi req r c) = Inr u \<and> await u = Inr ()"
    for qs r c
    using that
  proof (induction qs arbitrary: r c)
    case Nil
    then show ?case by simp
  next
    case (Cons rsi qs)
    from Cons.prems obtain u where u: "fst (rsi req r c) = Inr u" "await u = Inr ()"
      by (meson list.set_intros(1))
    obtain r' c2 where rc: "snd (rsi req r c) = (r', c2)"
      by (cases "snd (rsi req r c)")
    have call: "rsi req r c = (Inr u, r', c2)"
      using u(1) rc by (cases "rsi req r c") simp
    have "forEach_responseInspector qs req r' c2 =
             (Inr (fst (foldl (\<lambda>(r, c) rsi. snd (rsi req r c)) (r', c2) qs)),
              snd (foldl (\<lambda>(r, c) rsi. snd (rsi req r c)) (r', c2) qs))"
      using Cons.prems by (intro Cons.IH) simp
    then show ?case
      using call u(2) rc by simp
  qed
  have all_run: "walk rt req node q cl w =
              Returns (Inr (fst (foldl (\<lambda>(r, c) rsi. snd (rsi req r c)) (resp, c') q1)))
                (w1\<lparr>ctx := snd (foldl (\<lambda>(r, c) rsi. snd (rsi req r c)) (resp, c') q1)\<rparr>)"
    if "\<forall>rsi\<in>set q1. \<forall>r c. \<exists>u. fst (rsi req r c) = Inr u \<and> await u = Inr ()"
    using here in_order [OF that, of resp c']
    by (simp add: processResponseInspectors_def)
  have queued: "q1 = q0 @ List.map_filter responseInspector js"
    if "processInspectors rt req js q0 w0 = Continues q1 w1" and "\<forall>j\<in>set js. observeChildPaths j"
    for js q0 w0
    using that
  proof (induction js arbitrary: q0 w0)
    case Nil
    then show ?case by (simp add: List.map_filter_simps)
  next
    case (Cons j js)
    have scope: "in_scope j c" for c
      using Cons.prems(2) by (simp add: in_scope_def)
    have push: "push_responseInspector j q0 c = q0 @ List.map_filter responseInspector [j]" for c
      using scope
      by (simp add: push_responseInspector_def List.map_filter_simps split: option.splits)
    from Cons.prems(1) obtain w' where
      "processInspectors rt req js (q0 @ List.map_filter responseInspector [j]) w' = Continues q1 w1"
      by (auto simp: scope push simp del: in_scope_def
            split: option.splits prod.splits sum.splits if_splits)
    then have "q1 = (q0 @ List.map_filter responseInspector [j]) @ List.map_filter responseInspector js"
      using Cons.prems(2) by (intro Cons.IH) simp_all
    then show ?case
      by (simp add: List.map_filter_simps split: option.splits)
  qed
  have collected: "q1 = q @ List.map_filter responseInspector pre"
    if "\<forall>j\<in>set pre. observeChildPaths j"
    using assms(2) that by (rule queued)
  show ?thesis
  proof (intro conjI impI)
    show "walk rt req node q cl w = ?halt"
      by (rule here)
    show "walk rt req node q cl w =
           walk rt req (RouteNode (pathSegment node) (isWildcard node) (pathVariable node)
                          (pre @ [i]) [] None) q cl w"
      using here stripped by simp
  qed (rule kept all_run collected; assumption)+
qed

text \<open>
  Witness: a node with the inspectors \<^verbatim>\<open>A1\<close>, \<^verbatim>\<open>A2\<close>, \<^verbatim>\<open>B\<close>, \<^verbatim>\<open>C\<close> and a handler, as in
  \<open>halting_after_two\<close>. \<^verbatim>\<open>A1\<close> and \<^verbatim>\<open>A2\<close> continue and queue their response inspectors \<^verbatim>\<open>a1\<close>
  and \<^verbatim>\<open>a2\<close>; \<^verbatim>\<open>B\<close> halts with a 403. The callbacks that ran are \<^verbatim>\<open>A1\<close>, \<^verbatim>\<open>A2\<close>, \<^verbatim>\<open>B\<close>, \<^verbatim>\<open>a1\<close>,
  \<^verbatim>\<open>a2\<close>, in this order: neither \<^verbatim>\<open>b\<close>, nor \<^verbatim>\<open>C\<close> and \<^verbatim>\<open>c\<close>, nor the handler.
\<close>

theorem halt_response_ends_dispatch_witness:
  "walk logging_Router (GET ''/'')
     (RouteNode [] False []
        [new_Inspector (Some (continuing ''A1'')) (Some (observing ''a1'')) None,
         new_Inspector (Some (continuing ''A2'')) (Some (observing ''a2'')) None,
         new_Inspector (Some (halting ''B'' False)) (Some (observing ''b'')) None,
         new_Inspector (Some (continuing ''C'')) (Some (observing ''c'')) None]
        [] (Some (named_handler ''handler''))) [] None
     \<lparr>ctx = \<lparr>url_pathname = ''/'', pathVariables = None, meta = [], pathParts = Some []\<rparr>,
      console = []\<rparr>
   = Returns (Inr \<lparr>status = 403, body = ''B'', headers = []\<rparr>)
       \<lparr>ctx = \<lparr>url_pathname = ''/'', pathVariables = None,
               meta = [''A1'', ''A2'', ''B'', ''a1'', ''a2''], pathParts = Some []\<rparr>,
        console = []\<rparr>
   \<and> requestHandler halting_after_two (GET ''/'')
   = (Inr \<lparr>status = 403, body = ''B'', headers = []\<rparr>, [],
      Some \<lparr>url_pathname = ''/'', pathVariables = None,
            meta = [''A1'', ''A2'', ''B'', ''a1'', ''a2''], pathParts = Some []\<rparr>)"
proof -
  let ?c0 = "\<lparr>url_pathname = ''/'', pathVariables = None, meta = [] :: string list,
              pathParts = Some []\<rparr>"
  let ?A1 = "new_Inspector (Some (continuing ''A1'')) (Some (observing ''a1'')) None"
  let ?A2 = "new_Inspector (Some (continuing ''A2'')) (Some (observing ''a2'')) None"
  let ?B = "new_Inspector (Some (halting ''B'' False)) (Some (observing ''b'')) None"
  let ?C = "new_Inspector (Some (continuing ''C'')) (Some (observing ''c'')) None"
  let ?node = "RouteNode [] False [] [?A1, ?A2, ?B, ?C] [] (Some (named_handler ''handler''))"
  let ?resp = "\<lparr>status = 403, body = ''B'', headers = []\<rparr>"
  have "walk logging_Router (GET ''/'') ?node [] None \<lparr>ctx = ?c0, console = []\<rparr>
    = Returns (Inr (fst (foldl (\<lambda>(r, c) rsi. snd (rsi (GET ''/'') r c))
                          (?resp, called ''B'' (called ''A2'' (called ''A1'' ?c0)))
                          [observing ''a1'', observing ''a2''])))
        (\<lparr>ctx = called ''A2'' (called ''A1'' ?c0), console = []\<rparr>
           \<lparr>ctx := snd (foldl (\<lambda>(r, c) rsi. snd (rsi (GET ''/'') r c))
                          (?resp, called ''B'' (called ''A2'' (called ''A1'' ?c0)))
                          [observing ''a1'', observing ''a2''])\<rparr>)
    \<and> [observing ''a1'', observing ''a2''] = [] @ List.map_filter responseInspector [?A1, ?A2]"
    using halt_response_ends_dispatch
      [where pre = "[?A1, ?A2]" and i = ?B and later = "[?C]" and q = "[]"
         and ?q1.0 = "[observing ''a1'', observing ''a2'']"
         and ?w1.0 = "\<lparr>ctx = called ''A2'' (called ''A1'' ?c0), console = []\<rparr>"
         and w = "\<lparr>ctx = ?c0, console = []\<rparr>"
         and ri = "halting ''B'' False"
         and v = "Plain \<lparr>response = Some ?resp, shouldContinue = False\<rparr>"
         and c' = "called ''B'' (called ''A2'' (called ''A1'' ?c0))"
         and rir = "\<lparr>response = Some ?resp, shouldContinue = False\<rparr>"
         and resp = ?resp
         and rt = logging_Router and req = "GET ''/''" and cl = None
         and node = ?node]
    by (simp add: new_Inspector_def in_scope_def pathParts_array_def continuing_def halting_def
          called_def push_responseInspector_def observing_def processResponseInspectors_def
          List.map_filter_simps)
  moreover have "requestHandler halting_after_two (GET ''/'')
   = (Inr ?resp, [],
      Some \<lparr>url_pathname = ''/'', pathVariables = None,
            meta = [''A1'', ''A2'', ''B'', ''a1'', ''a2''], pathParts = Some []\<rparr>)"
    by code_simp
  ultimately show ?thesis
    by (simp add: observing_def called_def)
qed

subsection \<open>Segments after a splat\<close>

text \<open>
  C6, as amended. Registering a path in which a \<^verbatim>\<open>*\<close> is followed by further segments is a
  configuration error that does not stop anything: at the node where the \<^verbatim>\<open>*\<close> is met the
  error is logged with the number of segments that follow, and the node is left as it
  was. The registration action is applied to no node: whatever the action, the trie and
  the log are those of the same registration with an action that does nothing.
\<close>

theorem segments_after_splat_drop_the_registration:
  assumes "rest \<noteq> []"
  shows "addPathPropertyHelper (''*'' # rest) setClosure this =
           (this, [ERROR_wildcard_child_has_more_path_segments (length rest)])
       \<and> addPathPropertyHelper (pre @ ''*'' # rest) setClosure this =
           addPathPropertyHelper (pre @ ''*'' # rest) (\<lambda>node. (node, [])) this"
proof
  show "addPathPropertyHelper (''*'' # rest) setClosure this =
           (this, [ERROR_wildcard_child_has_more_path_segments (length rest)])"
    using assms by simp
  show "addPathPropertyHelper (pre @ ''*'' # rest) setClosure this =
           addPathPropertyHelper (pre @ ''*'' # rest) (\<lambda>node. (node, [])) this"
    using assms
  proof (induction pre arbitrary: this)
    case Nil
    then show ?case by simp
  next
    case (Cons p ps)
    then have IH: "\<And>n. addPathPropertyHelper (ps @ ''*'' # rest) setClosure n =
           addPathPropertyHelper (ps @ ''*'' # rest) (\<lambda>node. (node, [])) n"
      by simp
    show ?case
      by (simp add: IH Let_def split: option.splits)
  qed
qed

text \<open>
  Witness: \<^verbatim>\<open>/files/*/extra\<close> on a fresh trie, for a handler. The node \<^verbatim>\<open>files\<close> is created
  and stays empty.
\<close>

theorem segments_after_splat_drop_the_registration_witness:
  "addPathPropertyHelper [''*'', ''extra''] (setHandler (respond 200 ''files''))
     (RouteNode ''files'' False [] [] [] None :: unit RouteNode)
     = (RouteNode ''files'' False [] [] [] None,
        [ERROR_wildcard_child_has_more_path_segments 1])
   \<and> addPathPropertyHelper [''files'', ''*'', ''extra''] (setHandler (respond 200 ''files''))
       (new_RouteNode :: unit RouteNode)
     = (RouteNode [] False [] [] [RouteNode ''files'' False [] [] [] None] None,
        [ERROR_wildcard_child_has_more_path_segments 1])"
proof -
  have "addPathPropertyHelper [''files'', ''*'', ''extra''] (\<lambda>node. (node, []))
          (new_RouteNode :: unit RouteNode)
        = (RouteNode [] False [] [] [RouteNode ''files'' False [] [] [] None] None,
           [ERROR_wildcard_child_has_more_path_segments 1])"
    by (simp add: new_RouteNode_def)
  then show ?thesis
    using segments_after_splat_drop_the_registration
      [of "[''extra'']" "setHandler (respond 200 ''files'')"
          "RouteNode ''files'' False [] [] [] None :: unit RouteNode" "[''files'']"]
      segments_after_splat_drop_the_registration
      [of "[''extra'']" "setHandler (respond 200 ''files'')"
          "new_RouteNode :: unit RouteNode" "[''files'']"]
    by simp
qed

text \<open>
  Counterexample to C6 as stated: after \<^verbatim>\<open>router.get("/files/*/extra", files)\<close> on a fresh
  router the error is logged, but the trie holds no splat node and no handler, and
  \<^verbatim>\<open>GET /files/x\<close> is answered by the not-found handler.
\<close>

theorem registration_not_applied_at_splat_counterexample:
  "get (Path ''/files/*/extra'') (respond 200 ''files'') plain_Router
     = (plain_Router\<lparr>get_routes :=
          RouteNode [] False [] [] [RouteNode ''files'' False [] [] [] None] None\<rparr>,
        [ERROR_wildcard_child_has_more_path_segments 1])
   \<and> fst (requestHandler (fst (get (Path ''/files/*/extra'') (respond 200 ''files'') plain_Router))
           (GET ''/files/x''))
     = Inr \<lparr>status = 404, body = ''<!DOCTYPE html><html><body>Not Found</body></html>'',
            headers = [(''content-type'', ''text/html; charset=utf-8'')]\<rparr>"
proof -
  have "get (Path ''/files/*/extra'') (respond 200 ''files'') plain_Router
     = (plain_Router\<lparr>get_routes :=
          RouteNode [] False [] [] [RouteNode ''files'' False [] [] [] None] None\<rparr>,
        [ERROR_wildcard_child_has_more_path_segments 1])"
    by (simp add: get_def plain_Router_def new_Router_def addPathHandler_def
          pathSegmentsFromPath_def new_RouteNode_def)
  moreover have "fst (requestHandler (fst (get (Path ''/files/*/extra'') (respond 200 ''files'') plain_Router))
           (GET ''/files/x''))
     = Inr \<lparr>status = 404, body = ''<!DOCTYPE html><html><body>Not Found</body></html>'',
            headers = [(''content-type'', ''text/html; charset=utf-8'')]\<rparr>"
    by code_simp
  ultimately show ?thesis by simp
qed

subsection \<open>The scope of an inspector\<close>



subsection \<open>Named path variables\<close>

text \<open>
  C8, as amended. A named-variable node is a wildcard child whose variable name is not
  \<^verbatim>\<open>*\<close>. When the walk, at a node whose inspectors have let the request continue and with a
  segment \<open>x\<close> remaining, selects a named-variable node (it is the first child, in
  registration order, that is a wildcard or equals \<open>x\<close>), it binds the node's variable name
  to \<open>x\<close> in the path-variable map of the context (a new map when there was none, the
  earlier binding of that name replaced) and goes on at that node with this context; so
  the binding is made before the node's inspectors and handler run. If the node's
  inspectors let the request continue, no segment remains after them and the node holds a
  handler, that handler is invoked. When the selected child is a literal node or a splat
  node, no binding is made. The variable name is the one the node got when it was created
  and the handler the first one registered on it (C3), so a route \<^verbatim>\<open>/users/:id\<close> whose
  position is taken by a child registered earlier is answered by that child, under that
  child's name.

  In particular, when a route with one named variable \<^verbatim>\<open>:v\<close> between literal segments \<open>pre\<close>
  and \<open>suf\<close> is the only registration on a fresh GET trie, every GET request with the same
  literal segments and any segment \<open>x\<close> in the variable's place reaches the route's handler,
  called with the context whose path-variable map is \<open>v \<mapsto> x\<close>.
\<close>

theorem selected_variable_node_binds_segment:
  "(processInspectors rt req (inspectors p) q w = Continues q1 w1
      \<and> pathParts_array (ctx w1) = x # rest
      \<and> nextChild p x = Some c \<and> isWildcard c \<and> pathVariable c \<noteq> ''*''
    \<longrightarrow> walk rt req p q cl w =
          walk rt req c q1 (update_closestWildcard p cl)
            (w1\<lparr>ctx := (ctx w1)
               \<lparr>pathVariables :=
                  Some (AList.update (pathVariable c) x
                          (case pathVariables (ctx w1) of None \<Rightarrow> [] | Some vars \<Rightarrow> vars)),
                pathParts := Some rest\<rparr>\<rparr>)
        \<and> map_of (AList.update (pathVariable c) x
                     (case pathVariables (ctx w1) of None \<Rightarrow> [] | Some vars \<Rightarrow> vars))
             (pathVariable c) = Some x
        \<and> (processInspectors rt req (inspectors c) q1
               (w1\<lparr>ctx := (ctx w1)
                  \<lparr>pathVariables :=
                     Some (AList.update (pathVariable c) x
                             (case pathVariables (ctx w1) of None \<Rightarrow> [] | Some vars \<Rightarrow> vars)),
                   pathParts := Some rest\<rparr>\<rparr>) = Continues q2 w2
             \<and> pathParts_array (ctx w2) = [] \<and> handler c = Some h
           \<longrightarrow> walk rt req p q cl w = return_processed q2 req h w2))
   \<and> (processInspectors rt req (inspectors p) q w = Continues q1 w1
      \<and> pathParts_array (ctx w1) = x # rest
      \<and> nextChild p x = Some c \<and> \<not> (isWildcard c \<and> pathVariable c \<noteq> ''*'')
    \<longrightarrow> walk rt req p q cl w =
          walk rt req c q1 (update_closestWildcard p cl)
            (w1\<lparr>ctx := (ctx w1)\<lparr>pathParts := Some rest\<rparr>\<rparr>))
   \<and> (get_routes rt0 = new_RouteNode
      \<and> get (Path path) h rt0 = (rt, lg)
      \<and> pathSegmentsFromPath path = pre @ (CHR '':'' # v) # suf
      \<and> list_all is_literal pre \<and> list_all is_literal suf
      \<and> v \<noteq> [] \<and> v \<noteq> ''*''
      \<and> method req = ''GET''
      \<and> pathname req \<noteq> [] \<and> pathSegmentsFromPath (pathname req) = pre @ x # suf
      \<and> context_metadata_constructor rt req = Inr m
    \<longrightarrow> requestHandler rt req =
          try_catch rt req
            (return_processed [] req h
               \<lparr>ctx = \<lparr>url_pathname = pathname req, pathVariables = Some [(v, x)], meta = m,
                        pathParts = Some []\<rparr>,
                console = []\<rparr>))"
proof (intro conjI impI)
  assume sel: "processInspectors rt req (inspectors p) q w = Continues q1 w1
      \<and> pathParts_array (ctx w1) = x # rest
      \<and> nextChild p x = Some c \<and> isWildcard c \<and> pathVariable c \<noteq> ''*''"
  let ?vars = "AList.update (pathVariable c) x
                 (case pathVariables (ctx w1) of None \<Rightarrow> [] | Some vars \<Rightarrow> vars)"
  let ?c1 = "(ctx w1)\<lparr>pathVariables := Some ?vars, pathParts := Some rest\<rparr>"
  have parts: "pathParts (ctx w1) = Some (x # rest)"
    using sel by (auto simp: pathParts_array_def split: option.splits)
  have bound: "capture_pathVariable c x (pathParts_shift (ctx w1)) = ?c1"
    using sel parts
    by (simp add: capture_pathVariable_def pathParts_shift_def addPathVariable_def)
  show down: "walk rt req p q cl w =
      walk rt req c q1 (update_closestWildcard p cl) (w1\<lparr>ctx := ?c1\<rparr>)"
    using sel walk_descend [of rt req p q w q1 w1 x rest c cl] bound by simp
  show "map_of ?vars (pathVariable c) = Some x"
    by (simp add: update_conv')
  assume "processInspectors rt req (inspectors c) q1 (w1\<lparr>ctx := ?c1\<rparr>) = Continues q2 w2
             \<and> pathParts_array (ctx w2) = [] \<and> handler c = Some h"
  then show "walk rt req p q cl w = return_processed q2 req h w2"
    using down walk_exact [of rt req c q1 "w1\<lparr>ctx := ?c1\<rparr>" q2 w2 "update_closestWildcard p cl"]
    by simp
next
  assume other: "processInspectors rt req (inspectors p) q w = Continues q1 w1
      \<and> pathParts_array (ctx w1) = x # rest
      \<and> nextChild p x = Some c \<and> \<not> (isWildcard c \<and> pathVariable c \<noteq> ''*'')"
  have parts: "pathParts (ctx w1) = Some (x # rest)"
    using other by (auto simp: pathParts_array_def split: option.splits)
  have "capture_pathVariable c x (pathParts_shift (ctx w1)) = (ctx w1)\<lparr>pathParts := Some rest\<rparr>"
    using other parts by (auto simp: capture_pathVariable_def pathParts_shift_def)
  then show "walk rt req p q cl w =
      walk rt req c q1 (update_closestWildcard p cl) (w1\<lparr>ctx := (ctx w1)\<lparr>pathParts := Some rest\<rparr>\<rparr>)"
    using other walk_descend [of rt req p q w q1 w1 x rest c cl] by simp
next
  assume alone: "get_routes rt0 = new_RouteNode
      \<and> get (Path path) h rt0 = (rt, lg)
      \<and> pathSegmentsFromPath path = pre @ (CHR '':'' # v) # suf
      \<and> list_all is_literal pre \<and> list_all is_literal suf
      \<and> v \<noteq> [] \<and> v \<noteq> ''*''
      \<and> method req = ''GET''
      \<and> pathname req \<noteq> [] \<and> pathSegmentsFromPath (pathname req) = pre @ x # suf
      \<and> context_metadata_constructor rt req = Inr m"
  then have fresh: "get_routes rt0 = new_RouteNode"
    and reg: "get (Path path) h rt0 = (rt, lg)"
    and route: "pathSegmentsFromPath path = pre @ (CHR '':'' # v) # suf"
    and lits: "list_all is_literal pre" "list_all is_literal suf"
    and var: "v \<noteq> []" "v \<noteq> ''*''"
    and meth: "method req = ''GET''"
    and path: "pathname req \<noteq> []" "pathSegmentsFromPath (pathname req) = pre @ x # suf"
    and mk: "context_metadata_constructor rt req = Inr m"
    by simp_all
  let ?var = "CHR '':'' # v"
  have named: "is_named_variable ?var" "\<not> is_literal ?var" "?var \<noteq> ''*''"
    using var by (auto simp: is_named_variable_def is_literal_def)
  have "''*'' \<notin> set pre" "''*'' \<notin> set suf"
    using lits by (auto simp: list_all_iff is_literal_def)
  then have star: "''*'' \<notin> set (butlast (pathSegmentsFromPath path))"
    using route named(3) by (auto simp: butlast_append dest: in_set_butlastD)
  have m1: "matches (pathSegmentsFromPath path) (pathSegmentsFromPath (pathname req))"
    using route path(2) lits named matches_literals [OF lits(2)]
    by (simp add: matches_literal_prefix)
  have cap: "capture_all (pathSegmentsFromPath path) (pathSegmentsFromPath (pathname req))
               (new_Context req m)
             = addPathVariable v x (new_Context req m)"
    using route path(2) lits named
    by (simp add: capture_all_literal_prefix capture_all_literals)
  have "drop (Suc (length (pathSegmentsFromPath path))) (pathSegmentsFromPath (pathname req)) = []"
    using route path(2) by simp
  then show "requestHandler rt req =
          try_catch rt req
            (return_processed [] req h
               \<lparr>ctx = \<lparr>url_pathname = pathname req, pathVariables = Some [(v, x)], meta = m,
                        pathParts = Some []\<rparr>,
                console = []\<rparr>)"
    using registered_route_reaches_handler [OF fresh reg star meth path(1) m1 mk] cap
    by (simp add: addPathVariable_def new_Context_def)
qed

text \<open>
  Witness: \<^verbatim>\<open>router.get("/users/:id", user)\<close> and \<^verbatim>\<open>GET /users/42\<close>. At the root the literal
  child \<^verbatim>\<open>users\<close> is selected and nothing is bound; at \<^verbatim>\<open>users\<close> the variable node is selected,
  \<open>id \<mapsto> 42\<close> is bound and the handler answers; the whole request gives the handler's
  response and leaves the binding in the context.
\<close>

theorem selected_variable_node_binds_segment_witness:
  "walk plain_Router (GET ''/users/42'')
     (RouteNode ''users'' False [] []
        [RouteNode [] True ''id'' [] [] (Some (respond 200 ''user''))] None) [] None
     \<lparr>ctx = \<lparr>url_pathname = ''/users/42'', pathVariables = None, meta = (),
             pathParts = Some [''42'']\<rparr>, console = []\<rparr>
   = Returns (Inr \<lparr>status = 200, body = ''user'', headers = []\<rparr>)
       \<lparr>ctx = \<lparr>url_pathname = ''/users/42'', pathVariables = Some [(''id'', ''42'')], meta = (),
               pathParts = Some []\<rparr>, console = []\<rparr>
   \<and> walk plain_Router (GET ''/users/42'')
       (RouteNode [] False [] []
          [RouteNode ''users'' False [] []
             [RouteNode [] True ''id'' [] [] (Some (respond 200 ''user''))] None] None) [] None
       \<lparr>ctx = \<lparr>url_pathname = ''/users/42'', pathVariables = None, meta = (),
               pathParts = Some [''users'', ''42'']\<rparr>, console = []\<rparr>
     = walk plain_Router (GET ''/users/42'')
         (RouteNode ''users'' False [] []
            [RouteNode [] True ''id'' [] [] (Some (respond 200 ''user''))] None) [] None
         \<lparr>ctx = \<lparr>url_pathname = ''/users/42'', pathVariables = None, meta = (),
                 pathParts = Some [''42'']\<rparr>, console = []\<rparr>
   \<and> get_routes users_id
     = RouteNode [] False [] []
         [RouteNode ''users'' False [] []
            [RouteNode [] True ''id'' [] [] (Some (respond 200 ''user''))] None] None
   \<and> requestHandler users_id (GET ''/users/42'')
     = (Inr \<lparr>status = 200, body = ''user'', headers = []\<rparr>, [],
        Some \<lparr>url_pathname = ''/users/42'', pathVariables = Some [(''id'', ''42'')], meta = (),
              pathParts = Some []\<rparr>)
   \<and> requestHandler users_id (GET ''/users/7'')
     = (Inr \<lparr>status = 200, body = ''user'', headers = []\<rparr>, [],
        Some \<lparr>url_pathname = ''/users/7'', pathVariables = Some [(''id'', ''7'')], meta = (),
              pathParts = Some []\<rparr>)"
proof -
  let ?id = "RouteNode [] True ''id'' [] [] (Some (respond 200 ''user'')) :: unit RouteNode"
  let ?users = "RouteNode ''users'' False [] [] [?id] None"
  let ?root = "RouteNode [] False [] [] [?users] None"
  let ?w = "\<lambda>vars parts. \<lparr>ctx = \<lparr>url_pathname = ''/users/42'', pathVariables = vars, meta = (),
                                   pathParts = Some parts\<rparr>, console = []\<rparr>"
  have bound: "walk plain_Router (GET ''/users/42'') ?users [] None (?w None [''42''])
        = return_processed [] (GET ''/users/42'') (respond 200 ''user'')
            (?w (Some [(''id'', ''42'')]) [])"
    by (rule selected_variable_node_binds_segment
          [where rt = plain_Router and req = "GET ''/users/42''" and p = ?users and q = "[]"
             and w = "?w None [''42'']" and ?q1.0 = "[]" and ?w1.0 = "?w None [''42'']"
             and x = "''42''" and rest = "[]" and c = ?id and cl = None and ?q2.0 = "[]"
             and ?w2.0 = "?w (Some [(''id'', ''42'')]) []" and h = "respond 200 ''user''",
           THEN conjunct1, THEN mp, THEN conjunct2, THEN conjunct2, THEN mp])
       (simp_all add: nextChild_def pathParts_array_def)
  have literal: "walk plain_Router (GET ''/users/42'') ?root [] None (?w None [''users'', ''42''])
        = walk plain_Router (GET ''/users/42'') ?users [] (update_closestWildcard ?root None)
            (?w None [''users'', ''42'']
               \<lparr>ctx := (ctx (?w None [''users'', ''42'']))\<lparr>pathParts := Some [''42'']\<rparr>\<rparr>)"
    by (rule selected_variable_node_binds_segment
          [where rt = plain_Router and req = "GET ''/users/42''" and p = ?root and q = "[]"
             and w = "?w None [''users'', ''42'']" and ?q1.0 = "[]"
             and ?w1.0 = "?w None [''users'', ''42'']"
             and x = "''users''" and rest = "[''42'']" and c = ?users and cl = None,
           THEN conjunct2, THEN conjunct1, THEN mp])
       (simp add: nextChild_def pathParts_array_def)
  have trie: "get_routes users_id = ?root"
    by (simp add: users_id_def get_def addPathHandler_def pathSegmentsFromPath_def
          plain_Router_def new_Router_def new_RouteNode_def Let_def)
  have "requestHandler users_id (GET ''/users/42'') =
           try_catch users_id (GET ''/users/42'')
             (return_processed [] (GET ''/users/42'') (respond 200 ''user'')
                \<lparr>ctx = \<lparr>url_pathname = pathname (GET ''/users/42''),
                         pathVariables = Some [(''id'', ''42'')], meta = (),
                         pathParts = Some []\<rparr>,
                 console = []\<rparr>)"
    by (rule selected_variable_node_binds_segment
          [where ?rt0.0 = plain_Router and path = "''/users/:id''" and pre = "[''users'']"
             and suf = "[]" and v = "''id''" and x = "''42''" and h = "respond 200 ''user''"
             and rt = users_id and req = "GET ''/users/42''" and m = "()"
             and lg = "snd (get (Path ''/users/:id'') (respond 200 ''user'') plain_Router)",
           THEN conjunct2, THEN conjunct2, THEN mp])
       (simp add: users_id_def plain_Router_def new_Router_def pathSegmentsFromPath_def
          GET_def is_literal_def get_def split_beta)
  then have whole: "requestHandler users_id (GET ''/users/42'')
     = (Inr \<lparr>status = 200, body = ''user'', headers = []\<rparr>, [],
        Some \<lparr>url_pathname = ''/users/42'', pathVariables = Some [(''id'', ''42'')], meta = (),
              pathParts = Some []\<rparr>)"
    by (simp add: try_catch_def return_processed_def processResponseInspectors_def respond_def
          GET_def)
  have computed: "requestHandler users_id (GET ''/users/7'')
     = (Inr \<lparr>status = 200, body = ''user'', headers = []\<rparr>, [],
        Some \<lparr>url_pathname = ''/users/7'', pathVariables = Some [(''id'', ''7'')], meta = (),
              pathParts = Some []\<rparr>)"
    by code_simp
  show ?thesis
    using bound literal trie whole computed
    by (simp add: return_processed_def processResponseInspectors_def respond_def
          update_closestWildcard_def wildcardSplitChild_def)
qed

text \<open>
  Counterexample to C8 as stated: the route \<^verbatim>\<open>/users/:id\<close> is registered with a handler,
  and \<^verbatim>\<open>GET /users/42\<close> does not reach it. After \<^verbatim>\<open>router.get("/*", shallow)\<close> and
  \<^verbatim>\<open>router.get("/users/:id", user)\<close> the splat registered first is selected at the root:
  \<^verbatim>\<open>shallow\<close> answers and the context has no path variable. After
  \<^verbatim>\<open>router.get("/users/:name", first)\<close> and \<^verbatim>\<open>router.get("/users/:id", second)\<close> the second
  registration is logged twice (another name, a second handler) and changes nothing:
  \<^verbatim>\<open>first\<close> answers and the segment is bound to \<^verbatim>\<open>name\<close>, not to \<^verbatim>\<open>id\<close>.
\<close>

theorem named_variable_route_shadowed_counterexample:
  "requestHandler splat_then_users_id (GET ''/users/42'')
     = (Inr \<lparr>status = 200, body = ''shallow'', headers = []\<rparr>, [],
        Some \<lparr>url_pathname = ''/users/42'', pathVariables = None, meta = (),
              pathParts = Some []\<rparr>)
   \<and> snd users_name_then_id
     = [ERROR_path_variable_global_consistency ''name'' ''id'', ERROR_setHandler_called_twice]
   \<and> requestHandler (fst users_name_then_id) (GET ''/users/42'')
     = (Inr \<lparr>status = 200, body = ''first'', headers = []\<rparr>, [],
        Some \<lparr>url_pathname = ''/users/42'', pathVariables = Some [(''name'', ''42'')], meta = (),
              pathParts = Some []\<rparr>)"
  by code_simp

subsection \<open>The shared array of path parts\<close>

text \<open>
  C9. \<^verbatim>\<open>getPathParts()\<close> computes the array once and returns that array afterwards, and the
  router's \<^verbatim>\<open>shift\<close> works on it: a call of \<^verbatim>\<open>getPathParts()\<close> after the router's first
  \<^verbatim>\<open>shift\<close> sees the array without its first element. So when the walk stands at a node
  with the array empty (the request path is matched exactly) and the node has a handler,
  the handler is called with the very context whose \<^verbatim>\<open>getPathParts()\<close> is the empty array,
  while the split of a URL path is never empty. Every step down the trie takes the first
  element off the array, and the callbacks of the node below see the rest. The inspectors
  of the exactly matched node are all in
  scope; a request inspector of the node is called with the context the inspectors
  before it left, whose \<^verbatim>\<open>getPathParts()\<close> is the empty array when they left the array
  empty; and the first queued response inspector is called with the context the handler
  left, whose \<^verbatim>\<open>getPathParts()\<close> is the empty array when the handler left it so.
\<close>

theorem exact_match_sees_empty_pathParts:
  assumes "processInspectors rt req (inspectors node) q w = Continues q' w'"
    and "pathParts (ctx w') = Some []"
    and "handler node = Some h"
  shows "getPathParts (snd (getPathParts c)) = (fst (getPathParts c), snd (getPathParts c))
       \<and> fst (getPathParts (pathParts_shift (snd (getPathParts c)))) = tl (fst (getPathParts c))
       \<and> walk rt req node q cl w = return_processed q' req h w'
       \<and> getPathParts (ctx w') = ([], ctx w')
       \<and> fst (getPathParts (new_Context req m)) \<noteq> []
       \<and> in_scope i (ctx w')
       \<and> (inspectors node = pre @ j # later
            \<and> processInspectors rt req pre q w = Continues q1 w1
            \<and> pathParts (ctx w1) = Some []
            \<and> requestInspector j = Some ri \<longrightarrow>
          getPathParts (ctx w1) = ([], ctx w1)
          \<and> processInspectors rt req (inspectors node) q w =
              (case ri req (ctx w1) of
                 (Inl e, c') \<Rightarrow> Exit (Throws e (w1\<lparr>ctx := c'\<rparr>))
               | (Inr v, c') \<Rightarrow>
                   (case await v of
                      Inl e \<Rightarrow> Exit (Throws e (w1\<lparr>ctx := c'\<rparr>))
                    | Inr rir \<Rightarrow>
                        (case response rir of
                           Some resp \<Rightarrow>
                             (case processResponseInspectors q1 req (Plain resp) c' of
                                (p, c'') \<Rightarrow> Exit (Returns p (w1\<lparr>ctx := c''\<rparr>)))
                         | None \<Rightarrow>
                             (if shouldContinue rir
                              then processInspectors rt req later
                                     (push_responseInspector j q1 c') (w1\<lparr>ctx := c'\<rparr>)
                              else Exit (return_processed q1 req (server_error_handler rt)
                                     (w1\<lparr>ctx := c', console := console w1 @
                                          [ERROR_middleware_no_response (url_pathname c')]\<rparr>)))))))
       \<and> (h req (ctx w') = (Inr v, c1) \<and> await v = Inr resp \<and> q' = rsi # others \<longrightarrow>
          walk rt req node q cl w =
            (case rsi req resp c1 of
               (Inl e, r', c2) \<Rightarrow> Returns (Inl e) (w'\<lparr>ctx := c2\<rparr>)
             | (Inr u, r', c2) \<Rightarrow>
                 (case await u of
                    Inl e \<Rightarrow> Returns (Inl e) (w'\<lparr>ctx := c2\<rparr>)
                  | Inr finished \<Rightarrow>
                      (case forEach_responseInspector others req r' c2 of
                         (p, c3) \<Rightarrow> Returns p (w'\<lparr>ctx := c3\<rparr>))))
          \<and> (pathParts c1 = Some [] \<longrightarrow> getPathParts c1 = ([], c1)))
       \<and> (processInspectors rt req (inspectors parent) q0 w0 = Continues q2 w2
            \<and> pathParts (ctx w2) = Some (x # rest)
            \<and> nextChild parent x = Some child \<longrightarrow>
          walk rt req parent q0 cl w0 =
            walk rt req child q2 (update_closestWildcard parent cl)
              (w2\<lparr>ctx := capture_pathVariable child x (pathParts_shift (ctx w2))\<rparr>)
          \<and> getPathParts (capture_pathVariable child x (pathParts_shift (ctx w2))) =
              (rest, capture_pathVariable child x (pathParts_shift (ctx w2))))"
proof -
  have exact: "walk rt req node q cl w = return_processed q' req h w'"
    using assms by (subst walk.simps) (simp add: pathParts_array_def)
  have once: "getPathParts (snd (getPathParts c)) = (fst (getPathParts c), snd (getPathParts c))"
    by (simp add: getPathParts_def Let_def split: option.splits)
  have shifted: "fst (getPathParts (pathParts_shift (snd (getPathParts c)))) = tl (fst (getPathParts c))"
    by (simp add: getPathParts_def pathParts_shift_def Let_def split: option.splits)
  have empty: "getPathParts k = ([], k)" if "pathParts k = Some []" for k :: "'a Context"
    using that by (simp add: getPathParts_def)
  have full: "fst (getPathParts (new_Context req m)) \<noteq> []"
    using split_not_Nil by (simp add: getPathParts_def new_Context_def Let_def)
  have scope: "in_scope i (ctx w')"
    using assms(2) by (simp add: in_scope_def pathParts_array_def)
  have inspector: "processInspectors rt req (inspectors node) q w =
              (case ri req (ctx w1) of
                 (Inl e, c') \<Rightarrow> Exit (Throws e (w1\<lparr>ctx := c'\<rparr>))
               | (Inr v, c') \<Rightarrow>
                   (case await v of
                      Inl e \<Rightarrow> Exit (Throws e (w1\<lparr>ctx := c'\<rparr>))
                    | Inr rir \<Rightarrow>
                        (case response rir of
                           Some resp \<Rightarrow>
                             (case processResponseInspectors q1 req (Plain resp) c' of
                                (p, c'') \<Rightarrow> Exit (Returns p (w1\<lparr>ctx := c''\<rparr>)))
                         | None \<Rightarrow>
                             (if shouldContinue rir
                              then processInspectors rt req later
                                     (push_responseInspector j q1 c') (w1\<lparr>ctx := c'\<rparr>)
                              else Exit (return_processed q1 req (server_error_handler rt)
                                     (w1\<lparr>ctx := c', console := console w1 @
                                          [ERROR_middleware_no_response (url_pathname c')]\<rparr>))))))"
    if "inspectors node = pre @ j # later"
      and "processInspectors rt req pre q w = Continues q1 w1"
      and "pathParts (ctx w1) = Some []"
      and "requestInspector j = Some ri"
  proof -
    have "in_scope j (ctx w1)"
      using that(3) by (simp add: in_scope_def pathParts_array_def)
    then show ?thesis
      using that(1,2,4)
      by (simp add: processInspectors_append split: prod.splits sum.splits option.splits)
  qed
  have observer: "walk rt req node q cl w =
            (case rsi req resp c1 of
               (Inl e, r', c2) \<Rightarrow> Returns (Inl e) (w'\<lparr>ctx := c2\<rparr>)
             | (Inr u, r', c2) \<Rightarrow>
                 (case await u of
                    Inl e \<Rightarrow> Returns (Inl e) (w'\<lparr>ctx := c2\<rparr>)
                  | Inr finished \<Rightarrow>
                      (case forEach_responseInspector others req r' c2 of
                         (p, c3) \<Rightarrow> Returns p (w'\<lparr>ctx := c3\<rparr>))))"
    if "h req (ctx w') = (Inr v, c1)" and "await v = Inr resp" and "q' = rsi # others"
    using exact that
    by (simp add: return_processed_def processResponseInspectors_def
          split: prod.splits sum.splits)
  show ?thesis
  proof (intro conjI impI)
    show "walk rt req node q cl w = return_processed q' req h w'"
      by (rule exact)
    show "getPathParts (ctx w') = ([], ctx w')"
      using assms(2) by (rule empty)
    show "in_scope i (ctx w')"
      by (rule scope)
    show "getPathParts (snd (getPathParts c)) = (fst (getPathParts c), snd (getPathParts c))"
      by (rule once)
    show "fst (getPathParts (pathParts_shift (snd (getPathParts c)))) = tl (fst (getPathParts c))"
      by (rule shifted)
    show "fst (getPathParts (new_Context req m)) \<noteq> []"
      by (rule full)
  next
    assume at: "inspectors node = pre @ j # later
            \<and> processInspectors rt req pre q w = Continues q1 w1
            \<and> pathParts (ctx w1) = Some []
            \<and> requestInspector j = Some ri"
    then show "getPathParts (ctx w1) = ([], ctx w1)"
      by (intro empty) simp
    from at show "processInspectors rt req (inspectors node) q w =
              (case ri req (ctx w1) of
                 (Inl e, c') \<Rightarrow> Exit (Throws e (w1\<lparr>ctx := c'\<rparr>))
               | (Inr v, c') \<Rightarrow>
                   (case await v of
                      Inl e \<Rightarrow> Exit (Throws e (w1\<lparr>ctx := c'\<rparr>))
                    | Inr rir \<Rightarrow>
                        (case response rir of
                           Some resp \<Rightarrow>
                             (case processResponseInspectors q1 req (Plain resp) c' of
                                (p, c'') \<Rightarrow> Exit (Returns p (w1\<lparr>ctx := c''\<rparr>)))
                         | None \<Rightarrow>
                             (if shouldContinue rir
                              then processInspectors rt req later
                                     (push_responseInspector j q1 c') (w1\<lparr>ctx := c'\<rparr>)
                              else Exit (return_processed q1 req (server_error_handler rt)
                                     (w1\<lparr>ctx := c', console := console w1 @
                                          [ERROR_middleware_no_response (url_pathname c')]\<rparr>))))))"
      by (intro inspector) simp_all
  next
    assume "h req (ctx w') = (Inr v, c1) \<and> await v = Inr resp \<and> q' = rsi # others"
    then show "walk rt req node q cl w =
            (case rsi req resp c1 of
               (Inl e, r', c2) \<Rightarrow> Returns (Inl e) (w'\<lparr>ctx := c2\<rparr>)
             | (Inr u, r', c2) \<Rightarrow>
                 (case await u of
                    Inl e \<Rightarrow> Returns (Inl e) (w'\<lparr>ctx := c2\<rparr>)
                  | Inr finished \<Rightarrow>
                      (case forEach_responseInspector others req r' c2 of
                         (p, c3) \<Rightarrow> Returns p (w'\<lparr>ctx := c3\<rparr>))))"
      by (intro observer) simp_all
  next
    assume "pathParts c1 = Some []"
    then show "getPathParts c1 = ([], c1)"
      by (rule empty)
  next
    assume down: "processInspectors rt req (inspectors parent) q0 w0 = Continues q2 w2
            \<and> pathParts (ctx w2) = Some (x # rest)
            \<and> nextChild parent x = Some child"
    then show "walk rt req parent q0 cl w0 =
            walk rt req child q2 (update_closestWildcard parent cl)
              (w2\<lparr>ctx := capture_pathVariable child x (pathParts_shift (ctx w2))\<rparr>)"
      by (intro walk_descend [where rest = rest]) (simp_all add: pathParts_array_def)
    from down show "getPathParts (capture_pathVariable child x (pathParts_shift (ctx w2))) =
              (rest, capture_pathVariable child x (pathParts_shift (ctx w2)))"
      by (simp add: getPathParts_def capture_pathVariable_def pathParts_shift_def
            addPathVariable_def)
  qed
qed

text \<open>
  Witness: the node \<^verbatim>\<open>path\<close> of \<open>reporting_Router\<close>, reached by \<^verbatim>\<open>GET /sub/path\<close> with nothing
  left. The request inspector, the handler and the response inspector each add what
  \<^verbatim>\<open>getPathParts()\<close> returns to the metadata: three times the empty array, at the node and
  in the whole request, while the path splits into three parts.
\<close>

theorem exact_match_sees_empty_pathParts_witness:
  "walk reporting_Router (GET ''/sub/path'')
     (RouteNode ''path'' False []
        [new_Inspector (Some reporting_inspector) (Some reporting_observer) None] []
        (Some reporting_handler)) [] None
     \<lparr>ctx = \<lparr>url_pathname = ''/sub/path'', pathVariables = None, meta = [],
             pathParts = Some []\<rparr>, console = []\<rparr>
   = Returns (Inr \<lparr>status = 200, body = [], headers = []\<rparr>)
       \<lparr>ctx = \<lparr>url_pathname = ''/sub/path'', pathVariables = None, meta = [[], [], []],
               pathParts = Some []\<rparr>, console = []\<rparr>
   \<and> processInspectors reporting_Router (GET ''/sub/path'')
       [new_Inspector (Some reporting_inspector) (Some reporting_observer) None] []
       \<lparr>ctx = \<lparr>url_pathname = ''/sub/path'', pathVariables = None, meta = [],
               pathParts = Some []\<rparr>, console = []\<rparr>
     = Continues [reporting_observer]
         \<lparr>ctx = \<lparr>url_pathname = ''/sub/path'', pathVariables = None, meta = [[]],
                 pathParts = Some []\<rparr>, console = []\<rparr>
   \<and> fst (getPathParts (new_Context (GET ''/sub/path'') [] :: string list list Context))
       = [[], ''sub'', ''path'']
   \<and> fst (getPathParts (pathParts_shift (snd (getPathParts
            (new_Context (GET ''/sub/path'') [] :: string list list Context)))))
       = [''sub'', ''path'']
   \<and> walk reporting_Router (GET ''/sub/path'')
       (RouteNode ''sub'' False [] []
          [RouteNode ''path'' False []
             [new_Inspector (Some reporting_inspector) (Some reporting_observer) None] []
             (Some reporting_handler)] None) [] None
       \<lparr>ctx = \<lparr>url_pathname = ''/sub/path'', pathVariables = None, meta = [],
               pathParts = Some [''path'']\<rparr>, console = []\<rparr>
     = Returns (Inr \<lparr>status = 200, body = [], headers = []\<rparr>)
         \<lparr>ctx = \<lparr>url_pathname = ''/sub/path'', pathVariables = None, meta = [[], [], []],
                 pathParts = Some []\<rparr>, console = []\<rparr>
   \<and> requestHandler reporting_Router (GET ''/sub/path'')
     = (Inr \<lparr>status = 200, body = [], headers = []\<rparr>, [],
        Some \<lparr>url_pathname = ''/sub/path'', pathVariables = None, meta = [[], [], []],
              pathParts = Some []\<rparr>)"
proof -
  let ?c = "\<lambda>m. \<lparr>url_pathname = ''/sub/path'', pathVariables = None,
                   meta = m :: string list list, pathParts = Some []\<rparr>"
  let ?w = "\<lambda>m. \<lparr>ctx = ?c m, console = []\<rparr>"
  let ?i = "new_Inspector (Some reporting_inspector) (Some reporting_observer) None"
  let ?node = "RouteNode ''path'' False [] [?i] [] (Some reporting_handler)"
  let ?fresh = "new_Context (GET ''/sub/path'') [] :: string list list Context"
  let ?resp = "\<lparr>status = 200, body = [], headers = []\<rparr>"
  have saw: "saw_pathParts (?c m) = ?c (m @ [[]])" for m
    by (simp add: saw_pathParts_def getPathParts_def)
  have loop: "processInspectors reporting_Router (GET ''/sub/path'') [?i] [] (?w [])
                = Continues [reporting_observer] (?w [[]])"
    by (simp add: new_Inspector_def in_scope_def pathParts_array_def reporting_inspector_def
          push_responseInspector_def saw)
  have at_node: "processInspectors reporting_Router (GET ''/sub/path'') (inspectors ?node) []
                   (?w []) = Continues [reporting_observer] (?w [[]])"
    using loop by simp
  have left: "pathParts (ctx (?w [[]])) = Some []" "handler ?node = Some reporting_handler"
    by simp_all
  note at_exact_match = exact_match_sees_empty_pathParts
      [where rt = reporting_Router and req = "GET ''/sub/path''" and node = ?node
         and q = "[]" and w = "?w []" and q' = "[reporting_observer]" and w' = "?w [[]]"
         and h = reporting_handler and cl = None
         and c = ?fresh
         and m = "()" and i = ?i
         and pre = "[]" and j = ?i and later = "[]" and ?q1.0 = "[]" and ?w1.0 = "?w []"
         and ri = reporting_inspector
         and v = "Plain ?resp" and ?c1.0 = "?c [[], []]" and resp = ?resp
         and rsi = reporting_observer and others = "[]"
         and parent = "RouteNode ''sub'' False [] [] [?node] None" and ?q0.0 = "[]"
         and ?w0.0 = "\<lparr>ctx = (?c [])\<lparr>pathParts := Some [''path'']\<rparr>, console = []\<rparr>"
         and ?q2.0 = "[]"
         and ?w2.0 = "\<lparr>ctx = (?c [])\<lparr>pathParts := Some [''path'']\<rparr>, console = []\<rparr>"
         and x = "''path''" and rest = "[]" and child = ?node, OF at_node left]
  have shifted: "fst (getPathParts (pathParts_shift (snd (getPathParts
              ?fresh))))
          = tl (fst (getPathParts ?fresh))"
    by (rule at_exact_match [THEN conjunct2, THEN conjunct1])
  have handled: "walk reporting_Router (GET ''/sub/path'') ?node [] None (?w [])
          = return_processed [reporting_observer] (GET ''/sub/path'') reporting_handler (?w [[]])"
    by (rule at_exact_match [THEN conjunct2, THEN conjunct2, THEN conjunct1])
  have inspected: "processInspectors reporting_Router (GET ''/sub/path'') (inspectors ?node) []
                     (?w [])
          = (case reporting_inspector (GET ''/sub/path'') (ctx (?w [])) of
               (Inl e, c') \<Rightarrow> Exit (Throws e (?w []\<lparr>ctx := c'\<rparr>))
             | (Inr v, c') \<Rightarrow>
                 (case await v of
                    Inl e \<Rightarrow> Exit (Throws e (?w []\<lparr>ctx := c'\<rparr>))
                  | Inr rir \<Rightarrow>
                      (case response rir of
                         Some resp \<Rightarrow>
                           (case processResponseInspectors [] (GET ''/sub/path'') (Plain resp) c' of
                              (p, c'') \<Rightarrow> Exit (Returns p (?w []\<lparr>ctx := c''\<rparr>)))
                       | None \<Rightarrow>
                           (if shouldContinue rir
                            then processInspectors reporting_Router (GET ''/sub/path'') []
                                   (push_responseInspector ?i [] c') (?w []\<lparr>ctx := c'\<rparr>)
                            else Exit (return_processed [] (GET ''/sub/path'')
                                   (server_error_handler reporting_Router)
                                   (?w []\<lparr>ctx := c', console := console (?w []) @
                                        [ERROR_middleware_no_response (url_pathname c')]\<rparr>))))))"
    by (rule at_exact_match [THEN conjunct2, THEN conjunct2, THEN conjunct2, THEN conjunct2,
               THEN conjunct2, THEN conjunct2, THEN conjunct1, THEN mp, THEN conjunct2])
       (simp add: new_Inspector_def)
  have observed: "walk reporting_Router (GET ''/sub/path'') ?node [] None (?w [])
          = (case reporting_observer (GET ''/sub/path'') ?resp (?c [[], []]) of
               (Inl e, r', c2) \<Rightarrow> Returns (Inl e) (?w [[]]\<lparr>ctx := c2\<rparr>)
             | (Inr u, r', c2) \<Rightarrow>
                 (case await u of
                    Inl e \<Rightarrow> Returns (Inl e) (?w [[]]\<lparr>ctx := c2\<rparr>)
                  | Inr finished \<Rightarrow>
                      (case forEach_responseInspector [] (GET ''/sub/path'') r' c2 of
                         (p, c3) \<Rightarrow> Returns p (?w [[]]\<lparr>ctx := c3\<rparr>))))"
    by (rule at_exact_match [THEN conjunct2, THEN conjunct2, THEN conjunct2, THEN conjunct2,
               THEN conjunct2, THEN conjunct2, THEN conjunct2, THEN conjunct1, THEN mp,
               THEN conjunct1])
       (simp add: reporting_handler_def saw)
  have stepped: "walk reporting_Router (GET ''/sub/path'')
          (RouteNode ''sub'' False [] [] [?node] None) [] None
          \<lparr>ctx = (?c [])\<lparr>pathParts := Some [''path'']\<rparr>, console = []\<rparr>
        = walk reporting_Router (GET ''/sub/path'') ?node []
            (update_closestWildcard (RouteNode ''sub'' False [] [] [?node] None) None)
            (\<lparr>ctx = (?c [])\<lparr>pathParts := Some [''path'']\<rparr>, console = []\<rparr>
               \<lparr>ctx := capture_pathVariable ?node ''path''
                        (pathParts_shift ((?c [])\<lparr>pathParts := Some [''path'']\<rparr>))\<rparr>)"
    using at_exact_match [THEN conjunct2, THEN conjunct2, THEN conjunct2, THEN conjunct2,
               THEN conjunct2, THEN conjunct2, THEN conjunct2, THEN conjunct2, THEN mp,
               THEN conjunct1]
    by (simp add: nextChild_def)
  have parts: "fst (getPathParts ?fresh)
       = [[], ''sub'', ''path'']"
    by (simp add: getPathParts_def new_Context_def GET_def Let_def)
  have whole: "requestHandler reporting_Router (GET ''/sub/path'')
     = (Inr ?resp, [], Some (?c [[], [], []]))"
    by code_simp
  have "walk reporting_Router (GET ''/sub/path'') ?node [] None (?w [])
          = Returns (Inr ?resp) (?w [[], [], []])"
    using observed by (simp add: reporting_observer_def saw)
  moreover have "processInspectors reporting_Router (GET ''/sub/path'') [?i] [] (?w [])
          = Continues [reporting_observer] (?w [[]])"
    using inspected
    by (simp add: reporting_inspector_def saw push_responseInspector_def in_scope_def
          pathParts_array_def new_Inspector_def del: processInspectors.simps
          add: processInspectors.simps(1))
  ultimately show ?thesis
    using shifted parts whole stepped
    by (simp add: capture_pathVariable_def pathParts_shift_def update_closestWildcard_def
          wildcardSplitChild_def)
qed

subsection \<open>An outcome with both a response and shouldContinue\<close>

text \<open>
  C10. For an in-scope request inspector that returns an outcome (directly or through a
  promise), the loop looks at the response first: when the outcome carries a response,
  the walk halts with it, run through the response inspectors collected so far,
  whatever \<^verbatim>\<open>shouldContinue\<close> says (so also when it is true). The server-error branch is
  the branch of an outcome without a response whose \<^verbatim>\<open>shouldContinue\<close> is false; an
  outcome without a response whose \<^verbatim>\<open>shouldContinue\<close> is true lets the loop go on.
\<close>

theorem response_takes_precedence_over_shouldContinue:
  assumes "in_scope i (ctx w)"
    and "requestInspector i = Some ri"
    and "ri req (ctx w) = (Inr v, c')"
    and "await v = Inr rir"
  shows "processInspectors rt req (i # rest) q w =
           (case response rir of
              Some resp \<Rightarrow>
                (case processResponseInspectors q req (Plain resp) c' of
                   (p, c'') \<Rightarrow> Exit (Returns p (w\<lparr>ctx := c''\<rparr>)))
            | None \<Rightarrow>
                (if shouldContinue rir
                 then processInspectors rt req rest (push_responseInspector i q c') (w\<lparr>ctx := c'\<rparr>)
                 else Exit (return_processed q req (server_error_handler rt)
                        (w\<lparr>ctx := c', console := console w @
                             [ERROR_middleware_no_response (url_pathname c')]\<rparr>))))"
  using assms by (simp split: option.splits prod.splits)

text \<open>
  Witness: the inspector \<^verbatim>\<open>B\<close> of \<open>halting_Router True\<close>, whose outcome carries a 403 response
  and \<^verbatim>\<open>shouldContinue = true\<close>, with the response inspector \<^verbatim>\<open>a\<close> collected before. The 403
  response is returned after \<^verbatim>\<open>a\<close> has run, in the loop and in the whole request; nothing
  is logged and neither the handler nor the server-error handler is called.
\<close>

theorem response_takes_precedence_over_shouldContinue_witness:
  "processInspectors logging_Router (GET ''/'')
     [new_Inspector (Some (halting ''B'' True)) (Some (observing ''b'')) None] [observing ''a'']
     \<lparr>ctx = \<lparr>url_pathname = ''/'', pathVariables = None, meta = [''A''], pathParts = Some []\<rparr>,
      console = []\<rparr>
   = Exit (Returns (Inr \<lparr>status = 403, body = ''B'', headers = []\<rparr>)
       \<lparr>ctx = \<lparr>url_pathname = ''/'', pathVariables = None, meta = [''A'', ''B'', ''a''],
               pathParts = Some []\<rparr>, console = []\<rparr>)
   \<and> requestHandler (halting_Router True) (GET ''/'')
   = (Inr \<lparr>status = 403, body = ''B'', headers = []\<rparr>, [],
      Some \<lparr>url_pathname = ''/'', pathVariables = None, meta = [''A'', ''B'', ''a''],
            pathParts = Some []\<rparr>)"
proof -
  let ?w = "\<lparr>ctx = \<lparr>url_pathname = ''/'', pathVariables = None, meta = [''A''],
                     pathParts = Some []\<rparr>, console = []\<rparr>"
  let ?rir = "\<lparr>response = Some \<lparr>status = 403, body = ''B'', headers = []\<rparr>,
               shouldContinue = True\<rparr>"
  have "processInspectors logging_Router (GET ''/'')
     [new_Inspector (Some (halting ''B'' True)) (Some (observing ''b'')) None] [observing ''a''] ?w
   = Exit (Returns (Inr \<lparr>status = 403, body = ''B'', headers = []\<rparr>)
       \<lparr>ctx = \<lparr>url_pathname = ''/'', pathVariables = None, meta = [''A'', ''B'', ''a''],
               pathParts = Some []\<rparr>, console = []\<rparr>)"
    using response_takes_precedence_over_shouldContinue
      [of "new_Inspector (Some (halting ''B'' True)) (Some (observing ''b'')) None" ?w
          "halting ''B'' True" "GET ''/''" "Plain ?rir" "called ''B'' (ctx ?w)" ?rir
          logging_Router "[]" "[observing ''a'']"]
    by (simp add: new_Inspector_def in_scope_def pathParts_array_def halting_def called_def
          processResponseInspectors_def observing_def)
  moreover have "requestHandler (halting_Router True) (GET ''/'')
   = (Inr \<lparr>status = 403, body = ''B'', headers = []\<rparr>, [],
      Some \<lparr>url_pathname = ''/'', pathVariables = None, meta = [''A'', ''B'', ''a''],
            pathParts = Some []\<rparr>)"
    by code_simp
  ultimately show ?thesis by simp
qed

end
